theory Spec2Isabelle
  imports Main "HOL-Library.Sublist"
begin

section \<open>Text and paths\<close>

text \<open>
  The program is \<^verbatim>\<open>src/main.py\<close>: a container runner built from a cgroup v2 directory,
  a temporary root filesystem holding busybox, and \<^verbatim>\<open>unshare\<close> + \<^verbatim>\<open>chroot\<close>.
  Python's \<^verbatim>\<open>str(int)\<close> is the decimal numeral, with a minus sign for a negative number.
\<close>

fun str_nat :: "nat \<Rightarrow> string" where
  "str_nat n =
     (if n < 10 then [''0123456789'' ! n]
      else str_nat (n div 10) @ [''0123456789'' ! (n mod 10)])"

declare str_nat.simps [simp del]

definition str_int :: "int \<Rightarrow> string" where
  "str_int i = (if i < 0 then CHR ''-'' # str_nat (nat (- i)) else str_nat (nat i))"

text \<open>Reading a decimal numeral back: the value a reader of the file gets.\<close>

definition digit_val :: "char \<Rightarrow> nat" where
  "digit_val c = length (takeWhile (\<lambda>d. d \<noteq> c) ''0123456789'')"

definition dec_val :: "string \<Rightarrow> nat" where
  "dec_val s = foldl (\<lambda>a c. 10 * a + digit_val c) 0 s"

text \<open>
  \<^verbatim>\<open>s.split(c)\<close> for a one-character separator, and \<^verbatim>\<open>pathlib.Path(s)\<close>: the parts
  between slashes, empty parts and \<^verbatim>\<open>.\<close> dropped. A path is the list of its parts
  below the root; every path the program builds is absolute. A part \<^verbatim>\<open>..\<close> is kept as
  a name, as pathlib keeps it; the model does not resolve it.
\<close>

type_synonym path = "string list"

fun split_on :: "char \<Rightarrow> string \<Rightarrow> string list" where
  "split_on c [] = [[]]"
| "split_on c (x # xs) =
     (if x = c then [] # split_on c xs
      else (case split_on c xs of [] \<Rightarrow> [[x]] | w # ws \<Rightarrow> (x # w) # ws))"

definition Path :: "string \<Rightarrow> path" where
  "Path s = filter (\<lambda>w. w \<noteq> [] \<and> w \<noteq> ''.'') (split_on CHR ''/'' s)"

text \<open>\<^verbatim>\<open>p / s\<close>: an absolute right operand replaces the left one.\<close>

definition joinpath :: "path \<Rightarrow> string \<Rightarrow> path" where
  "joinpath p s = (if take 1 s = ''/'' then Path s else p @ Path s)"

text \<open>\<^verbatim>\<open>str(p)\<close> of an absolute path.\<close>

definition str_path :: "path \<Rightarrow> string" where
  "str_path p = (if p = [] then ''/'' else concat (map (\<lambda>w. CHR ''/'' # w) p))"

section \<open>The host: files, errors, the calls the program makes\<close>

text \<open>
  The filesystem is what \<^verbatim>\<open>lstat\<close> finds at each path: nothing, a directory, a regular
  file with its text, or a symbolic link with its target text. The root directory is the
  entry at \<open>[]\<close>. Permission bits are not part of the state.
\<close>

datatype node = Dir | File string | Symlink string

type_synonym fsmap = "path \<Rightarrow> node option"

datatype errno =
  EEXIST | ENOENT | ENOTDIR | EISDIR | ELOOP | EACCES | EPERM | EBUSY | EINVAL | ENOTEMPTY | EIO

text \<open>
  The exceptions of the program. \<^verbatim>\<open>FileExistsError\<close> is \<open>OSError EEXIST\<close>,
  \<^verbatim>\<open>FileNotFoundError\<close> is \<open>OSError ENOENT\<close>, and so on: the subclasses of
  \<^verbatim>\<open>OSError\<close> by their errno. \<^verbatim>\<open>ValueError\<close> is what the \<^verbatim>\<open>os\<close> functions
  raise for a path text with an embedded null byte, before they ask the kernel;
  \<^verbatim>\<open>UnicodeEncodeError\<close>, a subclass of it, is what \<^verbatim>\<open>print\<close> raises for a text
  the encoding of standard output lacks. Neither is an \<^verbatim>\<open>OSError\<close>.
  \<^verbatim>\<open>KeyboardInterrupt\<close> is the only one that is not an \<^verbatim>\<open>Exception\<close>.
\<close>

datatype exn =
    OSError errno
  | ValueError
  | UnicodeEncodeError
  | RuntimeError string
  | TypeError
  | IndexError
  | CalledProcessError int
  | KeyboardInterrupt

definition is_OSError :: "exn \<Rightarrow> bool" where
  "is_OSError e = (case e of OSError _ \<Rightarrow> True | _ \<Rightarrow> False)"

definition is_Exception :: "exn \<Rightarrow> bool" where
  "is_Exception e = (e \<noteq> KeyboardInterrupt)"

datatype call =
    Mkdir path
  | WriteText path string
  | Rmdir path
  | Copy2 path path
  | Chmod path nat
  | SymlinkTo path string
  | Rmtree path
  | Spawn "string list"

text \<open>
  What is observed of a run: the methods entered, and each call to the host with
  whether it succeeded.
\<close>

datatype event = Enter string | Sys call bool

datatype proc_result = Exited int string | NotFound | Interrupted

text \<open>
  The part of the host the program does not control. \<open>fault\<close> is the host refusing a
  call for a reason outside the modelled state (permissions, a busy or non-empty cgroup,
  an invalid value, an I/O error); \<open>spawn\<close> is what waiting for a child process ends
  in: its exit status and captured output, the executable missing, or Ctrl-C while
  waiting; \<open>tmp_names\<close> are the random names \<^verbatim>\<open>mkdtemp\<close> tries in turn;
  \<open>stdout_utf8\<close> says whether standard output encodes every text (UTF-8) or ASCII
  only (as under \<^verbatim>\<open>PYTHONIOENCODING=ascii\<close>).
\<close>

record env =
  fault :: "call \<Rightarrow> errno option"
  spawn :: "string list \<Rightarrow> proc_result"
  getpid :: int
  tmpdir :: string
  tmp_names :: "string list"
  stdout_utf8 :: bool

text \<open>
  The mutable state: the filesystem, the observed events, and the one attribute the
  program assigns after construction, \<^verbatim>\<open>RootFSManager.rootfs\<close> (\<open>None\<close> at first).
\<close>

record state =
  fs :: fsmap
  trace :: "event list"
  rootfs :: "path option"

type_synonym 'a result = "(exn + 'a) \<times> state"

definition andThen :: "(state \<Rightarrow> 'a result) \<Rightarrow> ('a \<Rightarrow> state \<Rightarrow> 'b result) \<Rightarrow> state \<Rightarrow> 'b result" where
  "andThen m f s = (case m s of (Inl e, s') \<Rightarrow> (Inl e, s') | (Inr x, s') \<Rightarrow> f x s')"

definition enter :: "string \<Rightarrow> state \<Rightarrow> state" where
  "enter m s = s\<lparr>trace := trace s @ [Enter m]\<rparr>"

text \<open>A \<^verbatim>\<open>for\<close> loop over a list: the first exception ends it.\<close>

fun for_each :: "('a \<Rightarrow> state \<Rightarrow> unit result) \<Rightarrow> 'a list \<Rightarrow> state \<Rightarrow> unit result" where
  "for_each body [] s = (Inr (), s)"
| "for_each body (x # xs) s =
     (case body x s of (Inl e, s') \<Rightarrow> (Inl e, s') | (Inr u, s') \<Rightarrow> for_each body xs s')"

subsection \<open>Following symbolic links\<close>

text \<open>
  A relative link target is read from the directory of the link. \<open>follow\<close> resolves a
  link in the last place of a path, at most 40 links deep as Linux does; \<open>None\<close> is
  \<^verbatim>\<open>ELOOP\<close>. \<^verbatim>\<open>os.path.exists\<close> and \<^verbatim>\<open>Path.exists\<close> follow links and answer
  \<open>False\<close> for a dangling one.
\<close>

fun follow :: "nat \<Rightarrow> fsmap \<Rightarrow> path \<Rightarrow> path option" where
  "follow 0 f p = None"
| "follow (Suc n) f p =
     (case f p of
        Some (Symlink t) \<Rightarrow> follow n f (joinpath (butlast p) t)
      | _ \<Rightarrow> Some p)"

definition resolve :: "fsmap \<Rightarrow> path \<Rightarrow> path option" where
  "resolve f p = follow 40 f p"

definition path_exists :: "fsmap \<Rightarrow> path \<Rightarrow> bool" where
  "path_exists f p = (case resolve f p of None \<Rightarrow> False | Some q \<Rightarrow> f q \<noteq> None)"

definition is_dir :: "fsmap \<Rightarrow> path \<Rightarrow> bool" where
  "is_dir f p = (case resolve f p of None \<Rightarrow> False | Some q \<Rightarrow> f q = Some Dir)"

subsection \<open>The calls\<close>

text \<open>
  A text is its bytes in UTF-8. The path and argument texts of a call are converted to C
  strings first: a null byte in one of them is a \<^verbatim>\<open>ValueError\<close> ("embedded null
  byte"), raised before the kernel is asked. The data written to a file may hold any byte.
  No entry of a filesystem has such a name, so \<^verbatim>\<open>exists\<close>, which answers False for
  it, is read from the state as for any other path. (A \<^verbatim>\<open>str\<close> with a lone
  surrogate has no encoding and is not a text of the model.)
\<close>

fun call_texts :: "call \<Rightarrow> string list" where
  "call_texts (Mkdir p) = p"
| "call_texts (WriteText p d) = p"
| "call_texts (Rmdir p) = p"
| "call_texts (Copy2 src dst) = src @ dst"
| "call_texts (Chmod p mode) = p"
| "call_texts (SymlinkTo p t) = t # p"
| "call_texts (Rmtree p) = p"
| "call_texts (Spawn argv) = argv"

definition has_nul :: "call \<Rightarrow> bool" where
  "has_nul c = list_ex (\<lambda>w. CHR 0x00 \<in> set w) (call_texts c)"

text \<open>
  Each call has an effect on the filesystem that the state decides (with the errno when
  the state forbids it); the host may still refuse a call the state allows. A refused
  call changes nothing.
\<close>

definition syscall :: "env \<Rightarrow> call \<Rightarrow> (fsmap \<Rightarrow> errno + fsmap) \<Rightarrow> state \<Rightarrow> unit result" where
  "syscall e c eff s =
     (if has_nul c then (Inl ValueError, s\<lparr>trace := trace s @ [Sys c False]\<rparr>)
      else
        (case eff (fs s) of
           Inl err \<Rightarrow> (Inl (OSError err), s\<lparr>trace := trace s @ [Sys c False]\<rparr>)
         | Inr f' \<Rightarrow>
             (case fault e c of
                Some err \<Rightarrow> (Inl (OSError err), s\<lparr>trace := trace s @ [Sys c False]\<rparr>)
              | None \<Rightarrow> (Inr (), s\<lparr>fs := f', trace := trace s @ [Sys c True]\<rparr>))))"

text \<open>
  \<^verbatim>\<open>print(t)\<close>: encodes the line for standard output and raises
  \<^verbatim>\<open>UnicodeEncodeError\<close> when the encoding lacks one of its characters. The lines printed
  are not among the observed events. Other failures of writing to standard output (a
  closed pipe) are not modelled.
\<close>

definition is_ascii :: "string \<Rightarrow> bool" where
  "is_ascii t = list_all (\<lambda>c. \<not> digit7 c) t"

definition print_line :: "env \<Rightarrow> string \<Rightarrow> state \<Rightarrow> unit result" where
  "print_line e t s =
     (if stdout_utf8 e \<or> is_ascii t then (Inr (), s) else (Inl UnicodeEncodeError, s))"

text \<open>The fixed parts of the lines the program prints, and the rule \<^verbatim>\<open>'=' * 60\<close>.\<close>

definition check_mark :: string where
  "check_mark = [CHR 0xE2, CHR 0x9C, CHR 0x93]"

definition msg_container :: string where
  "msg_container = [CHR 0xD0, CHR 0x9A, CHR 0xD0, CHR 0xBE, CHR 0xD0, CHR 0xBD, CHR 0xD1, CHR 0x82,
     CHR 0xD0, CHR 0xB5, CHR 0xD0, CHR 0xB9, CHR 0xD0, CHR 0xBD, CHR 0xD0, CHR 0xB5, CHR 0xD1, CHR 0x80] @ '': ''"

definition msg_command :: string where
  "msg_command = [CHR 0xF0, CHR 0x9F, CHR 0x9A, CHR 0x80] @ '' '' @
     [CHR 0xD0, CHR 0x9A, CHR 0xD0, CHR 0xBE, CHR 0xD0, CHR 0xBC, CHR 0xD0, CHR 0xB0, CHR 0xD0, CHR 0xBD,
      CHR 0xD0, CHR 0xB4, CHR 0xD0, CHR 0xB0] @ '': ''"

definition msg_stopped :: string where
  "msg_stopped = [CHR 0x0A, CHR 0xE2, CHR 0x9A, CHR 0xA0] @ '' '' @
     [CHR 0xD0, CHR 0x9E, CHR 0xD1, CHR 0x81, CHR 0xD1, CHR 0x82, CHR 0xD0, CHR 0xB0, CHR 0xD0, CHR 0xBD,
      CHR 0xD0, CHR 0xBE, CHR 0xD0, CHR 0xB2, CHR 0xD0, CHR 0xBB, CHR 0xD0, CHR 0xB5, CHR 0xD0, CHR 0xBD,
      CHR 0xD0, CHR 0xBE]"

definition msg_error :: string where
  "msg_error = [CHR 0x0A, CHR 0xE2, CHR 0x9C, CHR 0x97] @ '' '' @
     [CHR 0xD0, CHR 0x9E, CHR 0xD1, CHR 0x88, CHR 0xD0, CHR 0xB8, CHR 0xD0, CHR 0xB1, CHR 0xD0, CHR 0xBA,
      CHR 0xD0, CHR 0xB0] @ '': ''"

definition msg_cleaning :: string where
  "msg_cleaning = [CHR 0xD0, CHR 0x9E, CHR 0xD1, CHR 0x87, CHR 0xD0, CHR 0xB8, CHR 0xD1, CHR 0x81,
     CHR 0xD1, CHR 0x82, CHR 0xD0, CHR 0xBA, CHR 0xD0, CHR 0xB0]"

definition msg_done :: string where
  "msg_done = check_mark @ '' '' @
     [CHR 0xD0, CHR 0x93, CHR 0xD0, CHR 0xBE, CHR 0xD1, CHR 0x82, CHR 0xD0, CHR 0xBE, CHR 0xD0, CHR 0xB2,
      CHR 0xD0, CHR 0xBE, CHR 0x0A]"

definition rule60 :: string where
  "rule60 = replicate 60 (CHR ''='')"

definition parent_error :: "fsmap \<Rightarrow> path \<Rightarrow> errno option" where
  "parent_error f p =
     (if is_dir f (butlast p) then None
      else if path_exists f (butlast p) then Some ENOTDIR else Some ENOENT)"

definition mkdir_eff :: "path \<Rightarrow> fsmap \<Rightarrow> errno + fsmap" where
  "mkdir_eff p f =
     (if f p \<noteq> None then Inl EEXIST
      else (case parent_error f p of Some err \<Rightarrow> Inl err | None \<Rightarrow> Inr (f(p \<mapsto> Dir))))"

definition os_mkdir :: "env \<Rightarrow> path \<Rightarrow> state \<Rightarrow> unit result" where
  "os_mkdir e p = syscall e (Mkdir p) (mkdir_eff p)"

text \<open>
  \<^verbatim>\<open>Path.mkdir(parents, exist_ok)\<close> as pathlib writes it: \<^verbatim>\<open>os.mkdir\<close>; on
  \<^verbatim>\<open>FileNotFoundError\<close> with \<^verbatim>\<open>parents\<close>, make the parent and try again; on any other
  \<^verbatim>\<open>OSError\<close>, swallow it when \<^verbatim>\<open>exist_ok\<close> and the path is a directory.
\<close>

function Path_mkdir :: "env \<Rightarrow> bool \<Rightarrow> bool \<Rightarrow> path \<Rightarrow> state \<Rightarrow> unit result" where
  "Path_mkdir e parents exist_ok p s =
     (case os_mkdir e p s of
        (Inr u, s') \<Rightarrow> (Inr u, s')
      | (Inl err, s') \<Rightarrow>
          if err = OSError ENOENT then
            (if parents then
               (if p = [] then (Inl err, s')
                else (case Path_mkdir e True True (butlast p) s' of
                        (Inl err', s'') \<Rightarrow> (Inl err', s'')
                      | (Inr u, s'') \<Rightarrow> Path_mkdir e False exist_ok p s''))
             else (Inl err, s'))
          else if is_OSError err then
            (if exist_ok then (if is_dir (fs s') p then (Inr (), s') else (Inl err, s'))
             else (Inl err, s'))
          else (Inl err, s'))"
  by pat_completeness auto
termination
  by (relation "measure (\<lambda>(e, parents, exist_ok, p, s). 2 * length p + (if parents then 1 else 0))")
     (auto simp: neq_Nil_conv)

declare Path_mkdir.simps [simp del]

text \<open>
  \<^verbatim>\<open>Path.write_text\<close>: opens for writing through a link in the last place, creates
  the file when it is missing, replaces its text.
\<close>

definition write_eff :: "path \<Rightarrow> string \<Rightarrow> fsmap \<Rightarrow> errno + fsmap" where
  "write_eff p d f =
     (case resolve f p of
        None \<Rightarrow> Inl ELOOP
      | Some q \<Rightarrow>
          if f q = Some Dir then Inl EISDIR
          else (case parent_error f q of Some err \<Rightarrow> Inl err | None \<Rightarrow> Inr (f(q \<mapsto> File d))))"

definition write_text :: "env \<Rightarrow> path \<Rightarrow> string \<Rightarrow> state \<Rightarrow> unit result" where
  "write_text e p d = syscall e (WriteText p d) (write_eff p d)"

text \<open>
  \<^verbatim>\<open>Path.rmdir\<close>. The program calls it on the cgroup directory only, whose entries are
  the kernel's interface files and go with it. Whether the kernel refuses (members or
  child groups: \<^verbatim>\<open>EBUSY\<close>) is the host's answer, \<open>fault\<close>.
\<close>

definition rmdir_eff :: "path \<Rightarrow> fsmap \<Rightarrow> errno + fsmap" where
  "rmdir_eff p f =
     (case f p of
        None \<Rightarrow> Inl ENOENT
      | Some Dir \<Rightarrow> Inr (\<lambda>q. if prefix p q then None else f q)
      | Some n \<Rightarrow> Inl ENOTDIR)"

definition Path_rmdir :: "env \<Rightarrow> path \<Rightarrow> state \<Rightarrow> unit result" where
  "Path_rmdir e p = syscall e (Rmdir p) (rmdir_eff p)"

section \<open>ContainerConfig and CGroupManager\<close>

record ContainerConfig =
  name :: string
  memory_mb :: int
  cpu_percent :: int
  command :: string

text \<open>\<^verbatim>\<open>CGroupManager.__init__\<close>: the manager is its name and the path made from it.\<close>

definition CGroupManager_path :: "string \<Rightarrow> path" where
  "CGroupManager_path nm = Path (''/sys/fs/cgroup/'' @ nm)"

definition CGroupManager_create :: "env \<Rightarrow> string \<Rightarrow> int \<Rightarrow> int \<Rightarrow> state \<Rightarrow> unit result" where
  "CGroupManager_create e nm mem cpu s =
     andThen (Path_mkdir e False True (CGroupManager_path nm)) (\<lambda>u.
     andThen (write_text e (joinpath (CGroupManager_path nm) ''memory.max'')
                (str_int (mem * 1024 * 1024))) (\<lambda>u.
     andThen (write_text e (joinpath (CGroupManager_path nm) ''cpu.max'')
                (str_int (cpu * 1000) @ '' 100000'')) (\<lambda>u.
     print_line e (check_mark @ '' CGroup: '' @ str_int mem @ ''MB RAM, '' @ str_int cpu @ ''% CPU''))))
     (enter ''CGroupManager.create'' s)"

definition CGroupManager_add_process :: "env \<Rightarrow> string \<Rightarrow> int \<Rightarrow> state \<Rightarrow> unit result" where
  "CGroupManager_add_process e nm pid s =
     write_text e (joinpath (CGroupManager_path nm) ''cgroup.procs'') (str_int pid)
       (enter ''CGroupManager.add_process'' s)"

text \<open>\<^verbatim>\<open>try: self.path.rmdir()  except OSError: pass\<close>\<close>

definition CGroupManager_cleanup :: "env \<Rightarrow> string \<Rightarrow> state \<Rightarrow> unit result" where
  "CGroupManager_cleanup e nm s =
     (case Path_rmdir e (CGroupManager_path nm) (enter ''CGroupManager.cleanup'' s) of
        (Inl err, s') \<Rightarrow> if is_OSError err then (Inr (), s') else (Inl err, s')
      | (Inr u, s') \<Rightarrow> (Inr u, s'))"

section \<open>More of the host: temporary directories, copies, links, child processes\<close>

text \<open>
  \<^verbatim>\<open>tempfile.mkdtemp(prefix)\<close>: tries \<^verbatim>\<open>os.mkdir\<close> on the candidate names in turn,
  goes on to the next one on \<^verbatim>\<open>FileExistsError\<close>, raises it when all are taken, and
  returns the path text.
\<close>

fun mkdtemp_names :: "env \<Rightarrow> string \<Rightarrow> string list \<Rightarrow> state \<Rightarrow> string result" where
  "mkdtemp_names e pre [] s = (Inl (OSError EEXIST), s)"
| "mkdtemp_names e pre (n # ns) s =
     (case os_mkdir e (Path (tmpdir e @ ''/'' @ pre @ n)) s of
        (Inr u, s') \<Rightarrow> (Inr (tmpdir e @ ''/'' @ pre @ n), s')
      | (Inl err, s') \<Rightarrow>
          if err = OSError EEXIST then mkdtemp_names e pre ns s' else (Inl err, s'))"

definition mkdtemp :: "env \<Rightarrow> string \<Rightarrow> state \<Rightarrow> string result" where
  "mkdtemp e pre = mkdtemp_names e pre (tmp_names e)"

text \<open>
  \<^verbatim>\<open>shutil.copy2(src, dst)\<close>: reads the regular file \<^verbatim>\<open>src\<close> (through links), writes
  its text to \<^verbatim>\<open>dst\<close>, or into \<^verbatim>\<open>dst\<close> under the source's base name when \<^verbatim>\<open>dst\<close> is
  a directory; refuses to copy a file onto itself.
\<close>

definition copy2_eff :: "path \<Rightarrow> path \<Rightarrow> fsmap \<Rightarrow> errno + fsmap" where
  "copy2_eff src dst f =
     (case resolve f src of
        None \<Rightarrow> Inl ELOOP
      | Some q \<Rightarrow>
          (case f q of
             None \<Rightarrow> Inl ENOENT
           | Some Dir \<Rightarrow> Inl EISDIR
           | Some (Symlink t) \<Rightarrow> Inl ENOENT
           | Some (File d) \<Rightarrow>
               (let dst' = (if is_dir f dst then dst @ drop (length src - 1) src else dst)
                in if resolve f dst' = Some q then Inl EINVAL else write_eff dst' d f)))"

definition copy2 :: "env \<Rightarrow> path \<Rightarrow> path \<Rightarrow> state \<Rightarrow> unit result" where
  "copy2 e src dst = syscall e (Copy2 src dst) (copy2_eff src dst)"

definition chmod_eff :: "path \<Rightarrow> fsmap \<Rightarrow> errno + fsmap" where
  "chmod_eff p f = (if path_exists f p then Inr f else Inl ENOENT)"

definition Path_chmod :: "env \<Rightarrow> path \<Rightarrow> nat \<Rightarrow> state \<Rightarrow> unit result" where
  "Path_chmod e p mode = syscall e (Chmod p mode) (chmod_eff p)"

text \<open>\<^verbatim>\<open>link.symlink_to(target)\<close>: \<^verbatim>\<open>EEXIST\<close> when anything, also a dangling link, is at \<^verbatim>\<open>link\<close>.\<close>

definition symlink_eff :: "path \<Rightarrow> string \<Rightarrow> fsmap \<Rightarrow> errno + fsmap" where
  "symlink_eff p t f =
     (if f p \<noteq> None then Inl EEXIST
      else (case parent_error f p of Some err \<Rightarrow> Inl err | None \<Rightarrow> Inr (f(p \<mapsto> Symlink t))))"

definition symlink_to :: "env \<Rightarrow> path \<Rightarrow> string \<Rightarrow> state \<Rightarrow> unit result" where
  "symlink_to e p t = syscall e (SymlinkTo p t) (symlink_eff p t)"

text \<open>\<^verbatim>\<open>shutil.rmtree(p)\<close> without \<^verbatim>\<open>ignore_errors\<close>: removes the tree or raises.\<close>

definition rmtree_eff :: "path \<Rightarrow> fsmap \<Rightarrow> errno + fsmap" where
  "rmtree_eff p f =
     (case f p of
        None \<Rightarrow> Inl ENOENT
      | Some Dir \<Rightarrow> Inr (\<lambda>q. if prefix p q then None else f q)
      | Some n \<Rightarrow> Inl ENOTDIR)"

definition rmtree :: "env \<Rightarrow> path \<Rightarrow> state \<Rightarrow> unit result" where
  "rmtree e p = syscall e (Rmtree p) (rmtree_eff p)"

text \<open>
  \<^verbatim>\<open>subprocess.run(argv, check=...)\<close>: a null byte in an argument is a
  \<^verbatim>\<open>ValueError\<close>; else it waits for the child. What the child does to the filesystem
  is not modelled; whether the tree can be removed afterwards is the host's answer to
  \<open>Rmtree\<close>.
\<close>

definition subprocess_run :: "env \<Rightarrow> string list \<Rightarrow> bool \<Rightarrow> state \<Rightarrow> (int \<times> string) result" where
  "subprocess_run e argv check s =
     (if has_nul (Spawn argv) then (Inl ValueError, s\<lparr>trace := trace s @ [Sys (Spawn argv) False]\<rparr>)
      else
        (case spawn e argv of
           Exited rc out \<Rightarrow>
             if check \<and> rc \<noteq> 0
             then (Inl (CalledProcessError rc), s\<lparr>trace := trace s @ [Sys (Spawn argv) True]\<rparr>)
             else (Inr (rc, out), s\<lparr>trace := trace s @ [Sys (Spawn argv) True]\<rparr>)
         | NotFound \<Rightarrow> (Inl (OSError ENOENT), s\<lparr>trace := trace s @ [Sys (Spawn argv) False]\<rparr>)
         | Interrupted \<Rightarrow> (Inl KeyboardInterrupt, s\<lparr>trace := trace s @ [Sys (Spawn argv) False]\<rparr>)))"

section \<open>Python string methods used on the output of ldd\<close>

definition is_space :: "char \<Rightarrow> bool" where
  "is_space c = (c \<in> set [CHR '' '', CHR 0x09, CHR 0x0A, CHR 0x0B, CHR 0x0C, CHR 0x0D,
                          CHR 0x1C, CHR 0x1D, CHR 0x1E, CHR 0x1F])"

definition is_linebreak :: "char \<Rightarrow> bool" where
  "is_linebreak c = (c \<in> set [CHR 0x0A, CHR 0x0B, CHR 0x0C, CHR 0x0D, CHR 0x1C, CHR 0x1D, CHR 0x1E])"

text \<open>\<^verbatim>\<open>s.splitlines()\<close> on the ASCII line boundaries; \<open>cur\<close> is the line read so far, reversed.\<close>

fun splitlines_from :: "string \<Rightarrow> string \<Rightarrow> string list" where
  "splitlines_from cur [] = (if cur = [] then [] else [rev cur])"
| "splitlines_from cur (c # cs) =
     (if c = CHR 0x0D then
        (case cs of
           [] \<Rightarrow> [rev cur]
         | d # ds \<Rightarrow> if d = CHR 0x0A then rev cur # splitlines_from [] ds
                     else rev cur # splitlines_from [] (d # ds))
      else if is_linebreak c then rev cur # splitlines_from [] cs
      else splitlines_from (c # cur) cs)"

definition splitlines :: "string \<Rightarrow> string list" where
  "splitlines s = splitlines_from [] s"

text \<open>\<^verbatim>\<open>sub in s\<close>\<close>

fun contains :: "string \<Rightarrow> string \<Rightarrow> bool" where
  "contains sub [] = (sub = [])"
| "contains sub (c # cs) = (if prefix sub (c # cs) then True else contains sub cs)"

text \<open>\<^verbatim>\<open>s.split(sep)\<close> for a separator that is not empty.\<close>

function split_from :: "string \<Rightarrow> string \<Rightarrow> string \<Rightarrow> string list" where
  "split_from sep cur s =
     (if s = [] then [rev cur]
      else if sep \<noteq> [] \<and> prefix sep s then rev cur # split_from sep [] (drop (length sep) s)
      else split_from sep (hd s # cur) (tl s))"
  by pat_completeness auto
termination
  by (relation "measure (\<lambda>(sep, cur, s). length s)") (auto simp: prefix_def)

declare split_from.simps [simp del]

definition split_str :: "string \<Rightarrow> string \<Rightarrow> string list" where
  "split_str sep s = split_from sep [] s"

definition strip :: "string \<Rightarrow> string" where
  "strip s = rev (dropWhile is_space (rev (dropWhile is_space s)))"

text \<open>\<^verbatim>\<open>s.split()\<close>: the runs of characters between white space.\<close>

fun words_from :: "string \<Rightarrow> string \<Rightarrow> string list" where
  "words_from cur [] = (if cur = [] then [] else [rev cur])"
| "words_from cur (c # cs) =
     (if is_space c then (if cur = [] then words_from [] cs else rev cur # words_from [] cs)
      else words_from (c # cur) cs)"

definition split_ws :: "string \<Rightarrow> string list" where
  "split_ws s = words_from [] s"

definition lstrip_slash :: "string \<Rightarrow> string" where
  "lstrip_slash s = dropWhile (\<lambda>c. c = CHR ''/'') s"

text \<open>
  \<^verbatim>\<open>os.path.exists(s)\<close> for a path text. A relative text is read from the root
  directory: the working directory is not modelled.
\<close>

definition os_path_exists :: "state \<Rightarrow> string \<Rightarrow> bool" where
  "os_path_exists s p = path_exists (fs s) (Path p)"

section \<open>RootFSManager\<close>

definition busybox_paths :: "string list" where
  "busybox_paths = [''/usr/bin/busybox'', ''/bin/busybox'', ''/usr/bin/busybox-static'']"

definition commands :: "string list" where
  "commands = [''sh'', ''ls'', ''cat'', ''echo'', ''ps'', ''sleep'', ''mkdir'', ''rm'', ''cp'', ''mv'']"

definition skeleton_dirs :: "string list" where
  "skeleton_dirs = [''bin'', ''lib'', ''lib64'', ''proc'', ''tmp'', ''dev'', ''etc'']"

text \<open>
  The body of the loop over \<open>commands\<close> in \<^verbatim>\<open>_setup_busybox\<close>:
  \<^verbatim>\<open>link = self.rootfs / 'bin' / cmd;  if not link.exists(): link.symlink_to('busybox')\<close>
\<close>

definition link_command :: "env \<Rightarrow> path \<Rightarrow> string \<Rightarrow> state \<Rightarrow> unit result" where
  "link_command e root cmd s =
     (if \<not> path_exists (fs s) (joinpath (joinpath root ''bin'') cmd)
      then symlink_to e (joinpath (joinpath root ''bin'') cmd) ''busybox'' s
      else (Inr (), s))"

definition link_commands :: "env \<Rightarrow> path \<Rightarrow> string list \<Rightarrow> state \<Rightarrow> unit result" where
  "link_commands e root cmds = for_each (link_command e root) cmds"

text \<open>
  \<^verbatim>\<open>_setup_busybox\<close>: the first search path that exists; \<open>False\<close> when there is none;
  else copy, chmod 0o755, link the commands, \<open>True\<close>. Using \<^verbatim>\<open>self.rootfs\<close> while it is
  \<^verbatim>\<open>None\<close> is a \<^verbatim>\<open>TypeError\<close>.
\<close>

definition RootFSManager_setup_busybox :: "env \<Rightarrow> state \<Rightarrow> bool result" where
  "RootFSManager_setup_busybox e s =
     (case find (os_path_exists s) busybox_paths of
        None \<Rightarrow> (Inr False, s)
      | Some busybox_src \<Rightarrow>
          (case rootfs s of
             None \<Rightarrow> (Inl TypeError, s)
           | Some root \<Rightarrow>
               andThen (copy2 e (Path busybox_src) (joinpath root ''bin/busybox'')) (\<lambda>u.
               andThen (Path_chmod e (joinpath root ''bin/busybox'') 493) (\<lambda>u.
               andThen (link_commands e root commands) (\<lambda>u s'. (Inr True, s')))) s))"

text \<open>
  One line of the output of ldd: the library path it names, if any.
  \<^verbatim>\<open>line.split('=>')[1]\<close> and \<^verbatim>\<open>split()[0]\<close> raise \<^verbatim>\<open>IndexError\<close> out of range.
\<close>

definition lib_path_of :: "state \<Rightarrow> string \<Rightarrow> exn + string option" where
  "lib_path_of s line =
     (if contains ''=>'' line then
        (case split_str ''=>'' line of
           a # b # rest \<Rightarrow>
             (case split_ws (strip b) of
                [] \<Rightarrow> Inr None
              | w # ws \<Rightarrow> if os_path_exists s w then Inr (Some w) else Inr None)
         | _ \<Rightarrow> Inl IndexError)
      else if prefix ''/'' (strip line) then
        (case split_ws (strip line) of [] \<Rightarrow> Inl IndexError | w # ws \<Rightarrow> Inr (Some w))
      else Inr None)"

text \<open>The body of the loop over the lines: copy the library to the same path under the root.\<close>

definition copy_lib :: "env \<Rightarrow> path \<Rightarrow> string \<Rightarrow> state \<Rightarrow> unit result" where
  "copy_lib e root line s =
     (case lib_path_of s line of
        Inl err \<Rightarrow> (Inl err, s)
      | Inr None \<Rightarrow> (Inr (), s)
      | Inr (Some lib_path) \<Rightarrow>
          if lib_path \<noteq> [] \<and> os_path_exists s lib_path then
            andThen (Path_mkdir e True True (butlast (joinpath root (lstrip_slash lib_path)))) (\<lambda>u s'.
              if \<not> path_exists (fs s') (joinpath root (lstrip_slash lib_path))
              then copy2 e (Path lib_path) (joinpath root (lstrip_slash lib_path)) s'
              else (Inr (), s')) s
          else (Inr (), s))"

text \<open>
  \<^verbatim>\<open>_copy_bash\<close>: nothing when the host has no \<^verbatim>\<open>/usr/bin/bash\<close>; else copy it, chmod,
  then, inside \<^verbatim>\<open>try ... except subprocess.CalledProcessError: pass\<close>, run
  \<^verbatim>\<open>ldd\<close> with \<^verbatim>\<open>check=False\<close> and copy each library of its output.
\<close>

definition RootFSManager_copy_bash :: "env \<Rightarrow> state \<Rightarrow> unit result" where
  "RootFSManager_copy_bash e s =
     (if \<not> os_path_exists s ''/usr/bin/bash'' then (Inr (), s)
      else
        (case rootfs s of
           None \<Rightarrow> (Inl TypeError, s)
         | Some root \<Rightarrow>
             andThen (copy2 e (Path ''/usr/bin/bash'') (joinpath root ''bin/bash'')) (\<lambda>u.
             andThen (Path_chmod e (joinpath root ''bin/bash'') 493) (\<lambda>u s1.
               (case andThen (subprocess_run e [''ldd'', ''/usr/bin/bash''] False)
                       (\<lambda>res. for_each (copy_lib e root) (splitlines (snd res))) s1 of
                  (Inl err, s2) \<Rightarrow>
                    (case err of CalledProcessError rc \<Rightarrow> (Inr (), s2) | _ \<Rightarrow> (Inl err, s2))
                | (Inr u, s2) \<Rightarrow> (Inr u, s2)))) s))"

text \<open>
  \<^verbatim>\<open>create\<close>. The message of the \<^verbatim>\<open>RuntimeError\<close> is in Russian in the source
  ("BusyBox is not available. Install: apt install busybox-static"); it is written here
  in Latin letters.
\<close>

definition busybox_missing :: exn where
  "busybox_missing = RuntimeError ''BusyBox nedostupen. Ustanovite: apt install busybox-static''"

definition RootFSManager_create :: "env \<Rightarrow> string \<Rightarrow> state \<Rightarrow> path result" where
  "RootFSManager_create e nm s =
     andThen (mkdtemp e (''container_'' @ nm @ ''_'')) (\<lambda>t s1.
       andThen (for_each (\<lambda>d. Path_mkdir e True True (joinpath (Path t) d)) skeleton_dirs) (\<lambda>u.
       andThen (RootFSManager_setup_busybox e) (\<lambda>ok.
         if \<not> ok then (\<lambda>s'. (Inl busybox_missing, s'))
         else andThen (RootFSManager_copy_bash e) (\<lambda>u.
              andThen (print_line e (check_mark @ '' RootFS: '' @ str_path (Path t))) (\<lambda>u s'.
                (Inr (Path t), s')))))
       (s1\<lparr>rootfs := Some (Path t)\<rparr>))
     (enter ''RootFSManager.create'' s)"

text \<open>\<^verbatim>\<open>if self.rootfs and self.rootfs.exists(): shutil.rmtree(self.rootfs)\<close>\<close>

definition RootFSManager_cleanup :: "env \<Rightarrow> state \<Rightarrow> unit result" where
  "RootFSManager_cleanup e s =
     (case rootfs s of
        None \<Rightarrow> (Inr (), enter ''RootFSManager.cleanup'' s)
      | Some root \<Rightarrow>
          if path_exists (fs s) root then rmtree e root (enter ''RootFSManager.cleanup'' s)
          else (Inr (), enter ''RootFSManager.cleanup'' s))"

section \<open>Container\<close>

text \<open>
  A container is its configuration: \<^verbatim>\<open>__init__\<close> makes the two managers from
  \<^verbatim>\<open>config.name\<close>.
\<close>

definition unshare_argv :: "path \<Rightarrow> string \<Rightarrow> string list" where
  "unshare_argv root cmd =
     [''unshare'', ''--fork'', ''--pid'', ''--net'', ''--mount'', ''--uts'', ''--ipc'',
      ''--mount-proc'', ''chroot'', str_path root, cmd]"

text \<open>The \<^verbatim>\<open>try\<close> block of \<^verbatim>\<open>run\<close>.\<close>

definition Container_try :: "env \<Rightarrow> ContainerConfig \<Rightarrow> state \<Rightarrow> int result" where
  "Container_try e cfg =
     andThen (CGroupManager_create e (name cfg) (memory_mb cfg) (cpu_percent cfg)) (\<lambda>u.
     andThen (RootFSManager_create e (name cfg)) (\<lambda>root.
     andThen (print_line e (msg_command @ command cfg @ [CHR 0x0A])) (\<lambda>u.
     andThen (CGroupManager_add_process e (name cfg) (getpid e)) (\<lambda>u.
     andThen (subprocess_run e (unshare_argv root (command cfg)) False) (\<lambda>res s.
       (Inr (fst res), s))))))"

text \<open>
  The \<^verbatim>\<open>except\<close> clauses: \<^verbatim>\<open>KeyboardInterrupt\<close> prints and gives 130, an
  \<^verbatim>\<open>Exception\<close> prints and gives 1, anything else is not caught; an exception of the
  \<^verbatim>\<open>print\<close> in a handler leaves the handler. The text of the exception, which follows
  \<open>msg_error\<close> on its line, is left out: the fixed part already has characters outside
  ASCII.
\<close>

definition handle_exn :: "env \<Rightarrow> exn + int \<Rightarrow> state \<Rightarrow> int result" where
  "handle_exn e r s =
     (case r of
        Inr rc \<Rightarrow> (Inr rc, s)
      | Inl err \<Rightarrow>
          if err = KeyboardInterrupt then andThen (print_line e msg_stopped) (\<lambda>u s'. (Inr 130, s')) s
          else if is_Exception err then andThen (print_line e msg_error) (\<lambda>u s'. (Inr 1, s')) s
          else (Inl err, s))"

text \<open>
  \<^verbatim>\<open>_cleanup\<close>: three lines of heading, the cleanup of the group, the cleanup of the
  root, a closing line; the first exception ends it.
\<close>

definition Container_cleanup :: "env \<Rightarrow> ContainerConfig \<Rightarrow> state \<Rightarrow> unit result" where
  "Container_cleanup e cfg =
     andThen (print_line e (CHR 0x0A # rule60)) (\<lambda>u.
     andThen (print_line e msg_cleaning) (\<lambda>u.
     andThen (print_line e rule60) (\<lambda>u.
     andThen (CGroupManager_cleanup e (name cfg)) (\<lambda>u.
     andThen (RootFSManager_cleanup e) (\<lambda>u.
     print_line e msg_done)))))"

text \<open>
  \<^verbatim>\<open>run\<close>: three lines of heading, outside the \<^verbatim>\<open>try\<close> statement; then the
  \<^verbatim>\<open>finally\<close> clause runs \<^verbatim>\<open>_cleanup\<close> after the \<^verbatim>\<open>try\<close> block and its
  handlers, whatever they ended in; an exception it raises replaces the value that was
  to be returned.
\<close>

definition Container_run :: "env \<Rightarrow> ContainerConfig \<Rightarrow> state \<Rightarrow> int result" where
  "Container_run e cfg =
     andThen (print_line e (CHR 0x0A # rule60)) (\<lambda>u.
     andThen (print_line e (msg_container @ name cfg)) (\<lambda>u.
     andThen (print_line e rule60) (\<lambda>u s.
       (case Container_try e cfg s of
          (r, s1) \<Rightarrow>
            (case handle_exn e r s1 of
               (r', s1') \<Rightarrow>
                 (case Container_cleanup e cfg s1' of
                    (Inl err, s2) \<Rightarrow> (Inl err, s2)
                  | (Inr u, s2) \<Rightarrow> (r', s2)))))))"

section \<open>Sample hosts\<close>

text \<open>
  The configuration of \<^verbatim>\<open>demo_interactive\<close>, and a host that has the cgroup
  filesystem, a temporary directory and busybox, and refuses nothing.
\<close>

definition demo_config :: ContainerConfig where
  "demo_config = \<lparr>name = ''demo'', memory_mb = 50, cpu_percent = 25, command = ''/bin/sh''\<rparr>"

definition host_fs :: fsmap where
  "host_fs = Map.empty([] \<mapsto> Dir, [''sys''] \<mapsto> Dir, [''sys'', ''fs''] \<mapsto> Dir,
     [''sys'', ''fs'', ''cgroup''] \<mapsto> Dir, [''tmp''] \<mapsto> Dir, [''usr''] \<mapsto> Dir,
     [''usr'', ''bin''] \<mapsto> Dir, [''usr'', ''bin'', ''busybox''] \<mapsto> File ''ELF-busybox'')"

definition host_env :: env where
  "host_env = \<lparr>fault = (\<lambda>c. None), spawn = (\<lambda>argv. Exited 0 []), getpid = 4242,
     tmpdir = ''/tmp'', tmp_names = [''k3x9_q0a''], stdout_utf8 = True\<rparr>"

definition host_state :: state where
  "host_state = \<lparr>fs = host_fs, trace = [], rootfs = None\<rparr>"

definition emits :: "(event \<Rightarrow> bool) \<Rightarrow> (state \<Rightarrow> 'a result) \<Rightarrow> bool" where
  "emits P m = (\<forall>s. \<exists>evs. trace (snd (m s)) = trace s @ evs \<and> list_all P evs)"

definition setup_event :: "path \<Rightarrow> event \<Rightarrow> bool" where
  "setup_event cg ev =
     (case ev of
        Enter m \<Rightarrow> m = ''CGroupManager.create'' \<or> m = ''RootFSManager.create''
      | Sys c b \<Rightarrow>
          (case c of
             WriteText p d \<Rightarrow> p = cg @ [''memory.max''] \<or> p = cg @ [''cpu.max'']
           | Spawn argv \<Rightarrow> argv = [''ldd'', ''/usr/bin/bash'']
           | Rmdir p \<Rightarrow> False
           | Rmtree p \<Rightarrow> False
           | _ \<Rightarrow> True))"

text \<open>The events a cleanup can add, and the value the handlers of \<^verbatim>\<open>run\<close> return.\<close>

definition cleanup_event :: "event \<Rightarrow> bool" where
  "cleanup_event ev =
     (case ev of
        Enter m \<Rightarrow> m = ''CGroupManager.cleanup'' \<or> m = ''RootFSManager.cleanup''
      | Sys c b \<Rightarrow> (case c of Rmdir p \<Rightarrow> True | Rmtree p \<Rightarrow> True | _ \<Rightarrow> False))"

definition exit_code :: "exn + int \<Rightarrow> exn + int" where
  "exit_code r =
     (case r of
        Inr rc \<Rightarrow> Inr rc
      | Inl err \<Rightarrow>
          if err = KeyboardInterrupt then Inr 130
          else if is_Exception err then Inr 1
          else Inl err)"



definition sample_host :: "errno option \<Rightarrow> proc_result \<Rightarrow> env" where
  "sample_host r launch =
     \<lparr>fault = (\<lambda>c. case c of Rmtree p \<Rightarrow> r | _ \<Rightarrow> None), spawn = (\<lambda>argv. launch),
      getpid = 4242, tmpdir = ''/tmp'', tmp_names = [''k3x9_q0a''], stdout_utf8 = True\<rparr>"

definition group_fs :: fsmap where
  "group_fs = host_fs([''sys'', ''fs'', ''cgroup'', ''demo''] \<mapsto> Dir,
     [''sys'', ''fs'', ''cgroup'', ''demo'', ''memory.max''] \<mapsto> File ''52428800'',
     [''sys'', ''fs'', ''cgroup'', ''demo'', ''cpu.max''] \<mapsto> File ''25000 100000'')"

definition rootfs_fs :: fsmap where
  "rootfs_fs = group_fs([''tmp'', ''container_demo_k3x9_q0a''] \<mapsto> Dir,
     [''tmp'', ''container_demo_k3x9_q0a'', ''bin''] \<mapsto> Dir,
     [''tmp'', ''container_demo_k3x9_q0a'', ''lib''] \<mapsto> Dir,
     [''tmp'', ''container_demo_k3x9_q0a'', ''lib64''] \<mapsto> Dir,
     [''tmp'', ''container_demo_k3x9_q0a'', ''proc''] \<mapsto> Dir,
     [''tmp'', ''container_demo_k3x9_q0a'', ''tmp''] \<mapsto> Dir,
     [''tmp'', ''container_demo_k3x9_q0a'', ''dev''] \<mapsto> Dir,
     [''tmp'', ''container_demo_k3x9_q0a'', ''etc''] \<mapsto> Dir,
     [''tmp'', ''container_demo_k3x9_q0a'', ''bin'', ''busybox''] \<mapsto> File ''ELF-busybox'',
     [''tmp'', ''container_demo_k3x9_q0a'', ''bin'', ''sh''] \<mapsto> Symlink ''busybox'',
     [''tmp'', ''container_demo_k3x9_q0a'', ''bin'', ''ls''] \<mapsto> Symlink ''busybox'',
     [''tmp'', ''container_demo_k3x9_q0a'', ''bin'', ''cat''] \<mapsto> Symlink ''busybox'',
     [''tmp'', ''container_demo_k3x9_q0a'', ''bin'', ''echo''] \<mapsto> Symlink ''busybox'',
     [''tmp'', ''container_demo_k3x9_q0a'', ''bin'', ''ps''] \<mapsto> Symlink ''busybox'',
     [''tmp'', ''container_demo_k3x9_q0a'', ''bin'', ''sleep''] \<mapsto> Symlink ''busybox'',
     [''tmp'', ''container_demo_k3x9_q0a'', ''bin'', ''mkdir''] \<mapsto> Symlink ''busybox'',
     [''tmp'', ''container_demo_k3x9_q0a'', ''bin'', ''rm''] \<mapsto> Symlink ''busybox'',
     [''tmp'', ''container_demo_k3x9_q0a'', ''bin'', ''cp''] \<mapsto> Symlink ''busybox'',
     [''tmp'', ''container_demo_k3x9_q0a'', ''bin'', ''mv''] \<mapsto> Symlink ''busybox'')"

definition enrolled_fs :: fsmap where
  "enrolled_fs = rootfs_fs([''sys'', ''fs'', ''cgroup'', ''demo'', ''cgroup.procs''] \<mapsto> File ''4242'')"

definition group_events :: "event list" where
  "group_events =
     [Enter ''CGroupManager.create'',
      Sys (Mkdir [''sys'', ''fs'', ''cgroup'', ''demo'']) True,
      Sys (WriteText [''sys'', ''fs'', ''cgroup'', ''demo'', ''memory.max''] ''52428800'') True,
      Sys (WriteText [''sys'', ''fs'', ''cgroup'', ''demo'', ''cpu.max''] ''25000 100000'') True]"

definition rootfs_events :: "event list" where
  "rootfs_events =
     [Enter ''RootFSManager.create'',
      Sys (Mkdir [''tmp'', ''container_demo_k3x9_q0a'']) True,
      Sys (Mkdir [''tmp'', ''container_demo_k3x9_q0a'', ''bin'']) True,
      Sys (Mkdir [''tmp'', ''container_demo_k3x9_q0a'', ''lib'']) True,
      Sys (Mkdir [''tmp'', ''container_demo_k3x9_q0a'', ''lib64'']) True,
      Sys (Mkdir [''tmp'', ''container_demo_k3x9_q0a'', ''proc'']) True,
      Sys (Mkdir [''tmp'', ''container_demo_k3x9_q0a'', ''tmp'']) True,
      Sys (Mkdir [''tmp'', ''container_demo_k3x9_q0a'', ''dev'']) True,
      Sys (Mkdir [''tmp'', ''container_demo_k3x9_q0a'', ''etc'']) True,
      Sys (Copy2 [''usr'', ''bin'', ''busybox''] [''tmp'', ''container_demo_k3x9_q0a'', ''bin'', ''busybox'']) True,
      Sys (Chmod [''tmp'', ''container_demo_k3x9_q0a'', ''bin'', ''busybox''] 493) True,
      Sys (SymlinkTo [''tmp'', ''container_demo_k3x9_q0a'', ''bin'', ''sh''] ''busybox'') True,
      Sys (SymlinkTo [''tmp'', ''container_demo_k3x9_q0a'', ''bin'', ''ls''] ''busybox'') True,
      Sys (SymlinkTo [''tmp'', ''container_demo_k3x9_q0a'', ''bin'', ''cat''] ''busybox'') True,
      Sys (SymlinkTo [''tmp'', ''container_demo_k3x9_q0a'', ''bin'', ''echo''] ''busybox'') True,
      Sys (SymlinkTo [''tmp'', ''container_demo_k3x9_q0a'', ''bin'', ''ps''] ''busybox'') True,
      Sys (SymlinkTo [''tmp'', ''container_demo_k3x9_q0a'', ''bin'', ''sleep''] ''busybox'') True,
      Sys (SymlinkTo [''tmp'', ''container_demo_k3x9_q0a'', ''bin'', ''mkdir''] ''busybox'') True,
      Sys (SymlinkTo [''tmp'', ''container_demo_k3x9_q0a'', ''bin'', ''rm''] ''busybox'') True,
      Sys (SymlinkTo [''tmp'', ''container_demo_k3x9_q0a'', ''bin'', ''cp''] ''busybox'') True,
      Sys (SymlinkTo [''tmp'', ''container_demo_k3x9_q0a'', ''bin'', ''mv''] ''busybox'') True]"

definition enrol_events :: "event list" where
  "enrol_events =
     [Enter ''CGroupManager.add_process'',
      Sys (WriteText [''sys'', ''fs'', ''cgroup'', ''demo'', ''cgroup.procs''] ''4242'') True]"

definition demo_root :: path where
  "demo_root = [''tmp'', ''container_demo_k3x9_q0a'']"

definition launch_argv :: "string list" where
  "launch_argv = [''unshare'', ''--fork'', ''--pid'', ''--net'', ''--mount'', ''--uts'', ''--ipc'',
      ''--mount-proc'', ''chroot'', ''/tmp/container_demo_k3x9_q0a'', ''/bin/sh'']"

definition bash_host_state :: state where
  "bash_host_state =
     \<lparr>fs = host_fs([''usr'', ''bin'', ''bash''] \<mapsto> File ''ELF-bash''), trace = [], rootfs = None\<rparr>"

definition no_ldd_host :: env where
  "no_ldd_host =
     \<lparr>fault = (\<lambda>c. None),
      spawn = (\<lambda>argv. if argv = [''ldd'', ''/usr/bin/bash''] then NotFound else Exited 0 []),
      getpid = 4242, tmpdir = ''/tmp'', tmp_names = [''k3x9_q0a''], stdout_utf8 = True\<rparr>"

definition bash_group_fs :: fsmap where
  "bash_group_fs = host_fs([''usr'', ''bin'', ''bash''] \<mapsto> File ''ELF-bash'',
     [''sys'', ''fs'', ''cgroup'', ''demo''] \<mapsto> Dir,
     [''sys'', ''fs'', ''cgroup'', ''demo'', ''memory.max''] \<mapsto> File ''52428800'',
     [''sys'', ''fs'', ''cgroup'', ''demo'', ''cpu.max''] \<mapsto> File ''25000 100000'')"

definition no_ldd_fs :: fsmap where
  "no_ldd_fs = bash_group_fs([''tmp'', ''container_demo_k3x9_q0a''] \<mapsto> Dir,
     [''tmp'', ''container_demo_k3x9_q0a'', ''bin''] \<mapsto> Dir,
     [''tmp'', ''container_demo_k3x9_q0a'', ''lib''] \<mapsto> Dir,
     [''tmp'', ''container_demo_k3x9_q0a'', ''lib64''] \<mapsto> Dir,
     [''tmp'', ''container_demo_k3x9_q0a'', ''proc''] \<mapsto> Dir,
     [''tmp'', ''container_demo_k3x9_q0a'', ''tmp''] \<mapsto> Dir,
     [''tmp'', ''container_demo_k3x9_q0a'', ''dev''] \<mapsto> Dir,
     [''tmp'', ''container_demo_k3x9_q0a'', ''etc''] \<mapsto> Dir,
     [''tmp'', ''container_demo_k3x9_q0a'', ''bin'', ''busybox''] \<mapsto> File ''ELF-busybox'',
     [''tmp'', ''container_demo_k3x9_q0a'', ''bin'', ''sh''] \<mapsto> Symlink ''busybox'',
     [''tmp'', ''container_demo_k3x9_q0a'', ''bin'', ''ls''] \<mapsto> Symlink ''busybox'',
     [''tmp'', ''container_demo_k3x9_q0a'', ''bin'', ''cat''] \<mapsto> Symlink ''busybox'',
     [''tmp'', ''container_demo_k3x9_q0a'', ''bin'', ''echo''] \<mapsto> Symlink ''busybox'',
     [''tmp'', ''container_demo_k3x9_q0a'', ''bin'', ''ps''] \<mapsto> Symlink ''busybox'',
     [''tmp'', ''container_demo_k3x9_q0a'', ''bin'', ''sleep''] \<mapsto> Symlink ''busybox'',
     [''tmp'', ''container_demo_k3x9_q0a'', ''bin'', ''mkdir''] \<mapsto> Symlink ''busybox'',
     [''tmp'', ''container_demo_k3x9_q0a'', ''bin'', ''rm''] \<mapsto> Symlink ''busybox'',
     [''tmp'', ''container_demo_k3x9_q0a'', ''bin'', ''cp''] \<mapsto> Symlink ''busybox'',
     [''tmp'', ''container_demo_k3x9_q0a'', ''bin'', ''mv''] \<mapsto> Symlink ''busybox'',
     [''tmp'', ''container_demo_k3x9_q0a'', ''bin'', ''bash''] \<mapsto> File ''ELF-bash'')"

definition bash_events :: "event list" where
  "bash_events =
     [Sys (Copy2 [''usr'', ''bin'', ''bash''] [''tmp'', ''container_demo_k3x9_q0a'', ''bin'', ''bash'']) True,
      Sys (Chmod [''tmp'', ''container_demo_k3x9_q0a'', ''bin'', ''bash''] 493) True,
      Sys (Spawn [''ldd'', ''/usr/bin/bash'']) False]"

definition preset_state :: state where
  "preset_state =
     \<lparr>fs = Map.empty([] \<mapsto> Dir, [''tmp''] \<mapsto> Dir,
        [''tmp'', ''container_demo_k3x9_q0a''] \<mapsto> Dir,
        [''tmp'', ''container_demo_k3x9_q0a'', ''bin''] \<mapsto> Dir,
        [''tmp'', ''container_demo_k3x9_q0a'', ''bin'', ''busybox''] \<mapsto> File ''ELF-busybox'',
        [''tmp'', ''container_demo_k3x9_q0a'', ''bin'', ''ls''] \<mapsto> File ''#!/bin/sh''),
      trace = [], rootfs = Some [''tmp'', ''container_demo_k3x9_q0a'']\<rparr>"

definition dangling_state :: state where
  "dangling_state =
     \<lparr>fs = host_fs([''tmp'', ''container_demo_k3x9_q0a''] \<mapsto> Dir,
        [''tmp'', ''container_demo_k3x9_q0a'', ''bin''] \<mapsto> Dir,
        [''tmp'', ''container_demo_k3x9_q0a'', ''bin'', ''ls''] \<mapsto> Symlink ''/opt/gone''),
      trace = [], rootfs = Some [''tmp'', ''container_demo_k3x9_q0a'']\<rparr>"

definition bare_fs :: fsmap where
  "bare_fs = Map.empty([] \<mapsto> Dir, [''sys''] \<mapsto> Dir, [''sys'', ''fs''] \<mapsto> Dir,
     [''sys'', ''fs'', ''cgroup''] \<mapsto> Dir, [''tmp''] \<mapsto> Dir)"

definition bare_state :: state where
  "bare_state = \<lparr>fs = bare_fs, trace = [], rootfs = None\<rparr>"

definition bare_group :: state where
  "bare_group = \<lparr>fs = bare_fs([''sys'', ''fs'', ''cgroup'', ''demo''] \<mapsto> Dir,
     [''sys'', ''fs'', ''cgroup'', ''demo'', ''memory.max''] \<mapsto> File ''52428800'',
     [''sys'', ''fs'', ''cgroup'', ''demo'', ''cpu.max''] \<mapsto> File ''25000 100000''), trace = group_events, rootfs = None\<rparr>"

definition bare_tmp :: state where
  "bare_tmp =
     \<lparr>fs = bare_fs([''sys'', ''fs'', ''cgroup'', ''demo''] \<mapsto> Dir,
     [''sys'', ''fs'', ''cgroup'', ''demo'', ''memory.max''] \<mapsto> File ''52428800'',
     [''sys'', ''fs'', ''cgroup'', ''demo'', ''cpu.max''] \<mapsto> File ''25000 100000'',
     [''tmp'', ''container_demo_k3x9_q0a''] \<mapsto> Dir),
      trace = group_events @ [Enter ''RootFSManager.create'', Sys (Mkdir [''tmp'', ''container_demo_k3x9_q0a'']) True],
      rootfs = None\<rparr>"

definition bare_skeleton :: state where
  "bare_skeleton =
     \<lparr>fs = bare_fs([''sys'', ''fs'', ''cgroup'', ''demo''] \<mapsto> Dir,
     [''sys'', ''fs'', ''cgroup'', ''demo'', ''memory.max''] \<mapsto> File ''52428800'',
     [''sys'', ''fs'', ''cgroup'', ''demo'', ''cpu.max''] \<mapsto> File ''25000 100000'',
     [''tmp'', ''container_demo_k3x9_q0a''] \<mapsto> Dir,
     [''tmp'', ''container_demo_k3x9_q0a'', ''bin''] \<mapsto> Dir,
     [''tmp'', ''container_demo_k3x9_q0a'', ''lib''] \<mapsto> Dir,
     [''tmp'', ''container_demo_k3x9_q0a'', ''lib64''] \<mapsto> Dir,
     [''tmp'', ''container_demo_k3x9_q0a'', ''proc''] \<mapsto> Dir,
     [''tmp'', ''container_demo_k3x9_q0a'', ''tmp''] \<mapsto> Dir,
     [''tmp'', ''container_demo_k3x9_q0a'', ''dev''] \<mapsto> Dir,
     [''tmp'', ''container_demo_k3x9_q0a'', ''etc''] \<mapsto> Dir),
      trace = group_events @ [Enter ''RootFSManager.create'', Sys (Mkdir [''tmp'', ''container_demo_k3x9_q0a'']) True] @
        [Sys (Mkdir [''tmp'', ''container_demo_k3x9_q0a'', ''bin'']) True,
         Sys (Mkdir [''tmp'', ''container_demo_k3x9_q0a'', ''lib'']) True,
         Sys (Mkdir [''tmp'', ''container_demo_k3x9_q0a'', ''lib64'']) True,
         Sys (Mkdir [''tmp'', ''container_demo_k3x9_q0a'', ''proc'']) True,
         Sys (Mkdir [''tmp'', ''container_demo_k3x9_q0a'', ''tmp'']) True,
         Sys (Mkdir [''tmp'', ''container_demo_k3x9_q0a'', ''dev'']) True,
         Sys (Mkdir [''tmp'', ''container_demo_k3x9_q0a'', ''etc'']) True],
      rootfs = Some [''tmp'', ''container_demo_k3x9_q0a'']\<rparr>"

section \<open>Basic facts\<close>

lemma dec_val_snoc: "dec_val (xs @ [c]) = 10 * dec_val xs + digit_val c"
  by (simp add: dec_val_def)

lemma digit_val_digit: "d < 10 \<Longrightarrow> digit_val (''0123456789'' ! d) = d"
proof -
  assume "d < 10"
  then have "d \<in> {0,1,2,3,4,5,6,7,8,9}" by auto
  then show ?thesis by (auto simp: digit_val_def)
qed

lemma dec_val_str_nat: "dec_val (str_nat n) = n"
proof (induction n rule: str_nat.induct)
  case (1 n)
  show ?case
  proof (cases "n < 10")
    case True
    then show ?thesis
      using digit_val_digit [of n] dec_val_snoc [of "[]"]
      by (simp add: str_nat.simps [of n] dec_val_def)
  next
    case False
    then have "dec_val (str_nat (n div 10)) = n div 10" using 1 by simp
    then show ?thesis
      using False digit_val_digit [of "n mod 10"]
      by (simp add: str_nat.simps [of n] dec_val_snoc)
  qed
qed

lemma joinpath_memory_max [simp]: "joinpath p ''memory.max'' = p @ [''memory.max'']"
  by (simp add: joinpath_def Path_def)

lemma joinpath_cpu_max [simp]: "joinpath p ''cpu.max'' = p @ [''cpu.max'']"
  by (simp add: joinpath_def Path_def)

lemma joinpath_cgroup_procs [simp]: "joinpath p ''cgroup.procs'' = p @ [''cgroup.procs'']"
  by (simp add: joinpath_def Path_def)

lemma syscall_cases:
  assumes "syscall e c eff s = (r, s')"
  shows "(r = Inr () \<and> \<not> has_nul c \<and> (\<exists>f'. eff (fs s) = Inr f' \<and> fault e c = None
            \<and> s' = s\<lparr>fs := f', trace := trace s @ [Sys c True]\<rparr>))
       \<or> ((r = Inl ValueError \<and> has_nul c \<or> (\<exists>err. r = Inl (OSError err)) \<and> \<not> has_nul c)
           \<and> s' = s\<lparr>trace := trace s @ [Sys c False]\<rparr>)"
  using assms by (auto simp: syscall_def split: sum.splits option.splits if_splits)

lemma syscall_ok:
  assumes "syscall e c eff s = (Inr u, s')"
  shows "\<exists>f'. eff (fs s) = Inr f' \<and> fault e c = None
            \<and> s' = s\<lparr>fs := f', trace := trace s @ [Sys c True]\<rparr>"
  using syscall_cases [OF assms] by auto

lemma syscall_ok_text:
  assumes "syscall e c eff s = (Inr u, s')"
  shows "\<not> has_nul c"
  using syscall_cases [OF assms] by auto

lemma syscall_err:
  assumes "syscall e c eff s = (Inl x, s')"
  shows "(x = ValueError \<and> has_nul c \<or> is_OSError x \<and> \<not> has_nul c)
       \<and> s' = s\<lparr>trace := trace s @ [Sys c False]\<rparr>"
  using syscall_cases [OF assms] by (auto simp: is_OSError_def)

lemma syscall_clean:
  assumes "\<not> has_nul c"
  shows "syscall e c eff s =
     (case eff (fs s) of
        Inl err \<Rightarrow> (Inl (OSError err), s\<lparr>trace := trace s @ [Sys c False]\<rparr>)
      | Inr f' \<Rightarrow>
          (case fault e c of
             Some err \<Rightarrow> (Inl (OSError err), s\<lparr>trace := trace s @ [Sys c False]\<rparr>)
           | None \<Rightarrow> (Inr (), s\<lparr>fs := f', trace := trace s @ [Sys c True]\<rparr>)))"
  using assms by (simp add: syscall_def)

lemma has_nul_simps [simp]:
  "has_nul (Mkdir p) = list_ex (\<lambda>w. CHR 0x00 \<in> set w) p"
  "has_nul (WriteText p d) = list_ex (\<lambda>w. CHR 0x00 \<in> set w) p"
  "has_nul (Rmdir p) = list_ex (\<lambda>w. CHR 0x00 \<in> set w) p"
  "has_nul (Chmod p mode) = list_ex (\<lambda>w. CHR 0x00 \<in> set w) p"
  "has_nul (Rmtree p) = list_ex (\<lambda>w. CHR 0x00 \<in> set w) p"
  "has_nul (Copy2 src dst) =
     (list_ex (\<lambda>w. CHR 0x00 \<in> set w) src \<or> list_ex (\<lambda>w. CHR 0x00 \<in> set w) dst)"
  "has_nul (SymlinkTo p t) = (CHR 0x00 \<in> set t \<or> list_ex (\<lambda>w. CHR 0x00 \<in> set w) p)"
  "has_nul (Spawn argv) = list_ex (\<lambda>w. CHR 0x00 \<in> set w) argv"
  by (simp_all add: has_nul_def)

lemma print_line_cases:
  assumes "print_line e t s = (r, s')"
  shows "s' = s \<and> (r = Inr () \<or> r = Inl UnicodeEncodeError \<and> \<not> stdout_utf8 e)"
  using assms by (auto simp: print_line_def split: if_splits)

lemma print_line_utf8 [simp]: "stdout_utf8 e \<Longrightarrow> print_line e t s = (Inr (), s)"
  by (simp add: print_line_def)

lemma is_ascii_rule60 [simp]: "is_ascii rule60" "is_ascii (CHR 0x0A # rule60)"
  by (simp_all add: is_ascii_def rule60_def list_all_iff)

lemma print_line_rule60 [simp]:
  "print_line e rule60 s = (Inr (), s)"
  "print_line e (CHR 0x0A # rule60) s = (Inr (), s)"
  by (simp_all add: print_line_def)

lemma not_ascii [simp]:
  "\<not> is_ascii (check_mark @ t)"
  "\<not> is_ascii (msg_container @ t)"
  "\<not> is_ascii (msg_command @ t)"
  "\<not> is_ascii msg_stopped"
  "\<not> is_ascii msg_error"
  "\<not> is_ascii msg_cleaning"
  "\<not> is_ascii msg_done"
  by (simp_all add: is_ascii_def check_mark_def msg_container_def msg_command_def msg_stopped_def
        msg_error_def msg_cleaning_def msg_done_def)

lemma print_line_check_mark:
  "print_line e (check_mark @ t) s = (if stdout_utf8 e then (Inr (), s) else (Inl UnicodeEncodeError, s))"
  by (simp add: print_line_def)

lemma print_line_check_mark_ok:
  assumes "print_line e (check_mark @ t) s = (Inr u, s')"
  shows "stdout_utf8 e \<and> s' = s"
  using assms by (simp add: print_line_check_mark split: if_splits)

lemma follow_not_link:
  assumes "\<forall>t. f p \<noteq> Some (Symlink t)"
  shows "follow (Suc n) f p = Some p"
  using assms by (auto split: option.splits node.splits)

lemma resolve_not_link:
  assumes "\<forall>t. f p \<noteq> Some (Symlink t)"
  shows "resolve f p = Some p"
proof -
  have "(40::nat) = Suc 39" by simp
  then show ?thesis unfolding resolve_def using follow_not_link [of f p 39] assms by simp
qed

lemma Path_mkdir_flat:
  "Path_mkdir e False ok p s =
     (case os_mkdir e p s of
        (Inr u, s') \<Rightarrow> (Inr u, s')
      | (Inl err, s') \<Rightarrow>
          if err = OSError ENOENT then (Inl err, s')
          else if is_OSError err then
            (if ok then (if is_dir (fs s') p then (Inr (), s') else (Inl err, s'))
             else (Inl err, s'))
          else (Inl err, s'))"
  by (subst Path_mkdir.simps) (simp split: prod.splits sum.splits)

lemma Path_mkdir_flat_ok:
  assumes "Path_mkdir e False ok p s = (Inr u, s')"
  shows "\<exists>b. trace s' = trace s @ [Sys (Mkdir p) b] \<and> rootfs s' = rootfs s
           \<and> (fs s' = fs s \<or> (fs s p = None \<and> fs s' = (fs s)(p \<mapsto> Dir)))"
proof (cases "os_mkdir e p s")
  case (Pair r s1)
  show ?thesis
  proof (cases r)
    case (Inr v)
    with Pair assms have s': "s' = s1" by (simp add: Path_mkdir_flat)
    from Pair Inr syscall_ok [of e "Mkdir p" "mkdir_eff p" s v s1]
    obtain f' where "mkdir_eff p (fs s) = Inr f'" "s1 = s\<lparr>fs := f', trace := trace s @ [Sys (Mkdir p) True]\<rparr>"
      by (auto simp: os_mkdir_def)
    then show ?thesis using s'
      by (auto simp: mkdir_eff_def split: if_splits option.splits)
  next
    case (Inl x)
    with Pair syscall_err [of e "Mkdir p" "mkdir_eff p" s x s1]
    have s1: "s1 = s\<lparr>trace := trace s @ [Sys (Mkdir p) False]\<rparr>" by (auto simp: os_mkdir_def)
    from Pair Inl assms have "s' = s1" by (auto simp: Path_mkdir_flat split: if_splits)
    with s1 show ?thesis by auto
  qed
qed

lemma write_text_ok:
  assumes "write_text e p d s = (Inr u, s')"
  shows "\<exists>q. resolve (fs s) p = Some q \<and> fs s' = (fs s)(q \<mapsto> File d)
           \<and> trace s' = trace s @ [Sys (WriteText p d) True] \<and> rootfs s' = rootfs s"
proof -
  from syscall_ok [of e "WriteText p d" "write_eff p d" s u s'] assms
  obtain f' where "write_eff p d (fs s) = Inr f'"
    "s' = s\<lparr>fs := f', trace := trace s @ [Sys (WriteText p d) True]\<rparr>"
    by (auto simp: write_text_def)
  then show ?thesis by (auto simp: write_eff_def split: option.splits if_splits)
qed

lemma andThen_ok:
  assumes "andThen m f s = (Inr y, s')"
  shows "\<exists>x s1. m s = (Inr x, s1) \<and> f x s1 = (Inr y, s')"
  using assms by (auto simp: andThen_def split: prod.splits sum.splits)

lemma CGroupManager_create_ok:
  assumes "CGroupManager_create e nm mem cpu s = (Inr u, s')"
  shows "\<exists>s1 s2. Path_mkdir e False True (CGroupManager_path nm) (enter ''CGroupManager.create'' s) = (Inr (), s1)
          \<and> write_text e (CGroupManager_path nm @ [''memory.max'']) (str_int (mem * 1024 * 1024)) s1 = (Inr (), s2)
          \<and> write_text e (CGroupManager_path nm @ [''cpu.max'']) (str_int (cpu * 1000) @ '' 100000'') s2 = (Inr (), s')"
  using assms unfolding CGroupManager_create_def
  by (auto dest!: andThen_ok print_line_check_mark_ok)

lemma CGroupManager_create_stdout:
  assumes "CGroupManager_create e nm mem cpu s = (Inr u, s')"
  shows "stdout_utf8 e"
  using assms unfolding CGroupManager_create_def
  by (auto dest!: andThen_ok print_line_check_mark_ok)

lemma follow_numeral [simp]:
  "follow (numeral k) f p =
     (case f p of
        Some (Symlink t) \<Rightarrow> follow (pred_numeral k) f (joinpath (butlast p) t)
      | _ \<Rightarrow> Some p)"
  by (simp add: numeral_eq_Suc)

lemmas host_defs = host_env_def host_state_def host_fs_def

lemma host_env_stdout [simp]: "stdout_utf8 host_env"
  by (simp add: host_env_def)

lemmas call_defs = syscall_def print_line_def os_mkdir_def mkdir_eff_def parent_error_def is_dir_def
  path_exists_def resolve_def write_text_def write_eff_def andThen_def enter_def Path_mkdir_flat

lemma CGroupManager_create_trace:
  assumes ok: "CGroupManager_create e nm mem cpu s = (Inr (), s')"
  shows "\<exists>b. trace s' = trace s @
           [Enter ''CGroupManager.create'', Sys (Mkdir (CGroupManager_path nm)) b,
            Sys (WriteText (CGroupManager_path nm @ [''memory.max'']) (str_int (mem * 1024 * 1024))) True,
            Sys (WriteText (CGroupManager_path nm @ [''cpu.max'']) (str_int (cpu * 1000) @ '' 100000'')) True]"
proof -
  from CGroupManager_create_ok [OF ok] obtain s1 s2 where
    a: "Path_mkdir e False True (CGroupManager_path nm) (enter ''CGroupManager.create'' s) = (Inr (), s1)"
    and b: "write_text e (CGroupManager_path nm @ [''memory.max'']) (str_int (mem * 1024 * 1024)) s1 = (Inr (), s2)"
    and c: "write_text e (CGroupManager_path nm @ [''cpu.max'']) (str_int (cpu * 1000) @ '' 100000'') s2 = (Inr (), s')"
    by blast
  from Path_mkdir_flat_ok [OF a] write_text_ok [OF b] write_text_ok [OF c]
  show ?thesis by (auto simp: enter_def)
qed

lemma CGroupManager_create_fs:
  assumes ok: "CGroupManager_create e nm mem cpu s = (Inr (), s')"
    and nc: "\<forall>t. fs s (CGroupManager_path nm @ [''cpu.max'']) \<noteq> Some (Symlink t)"
  shows "fs s' (CGroupManager_path nm @ [''cpu.max'']) = Some (File (str_int (cpu * 1000) @ '' 100000''))"
    and "\<forall>t. fs s (CGroupManager_path nm @ [''memory.max'']) \<noteq> Some (Symlink t) \<Longrightarrow>
         fs s' (CGroupManager_path nm @ [''memory.max'']) = Some (File (str_int (mem * 1024 * 1024)))"
proof -
  let ?cg = "CGroupManager_path nm"
  from CGroupManager_create_ok [OF ok] obtain s1 s2 where
    a: "Path_mkdir e False True ?cg (enter ''CGroupManager.create'' s) = (Inr (), s1)"
    and b: "write_text e (?cg @ [''memory.max'']) (str_int (mem * 1024 * 1024)) s1 = (Inr (), s2)"
    and c: "write_text e (?cg @ [''cpu.max'']) (str_int (cpu * 1000) @ '' 100000'') s2 = (Inr (), s')"
    by blast
  from Path_mkdir_flat_ok [OF a]
  have f1: "fs s1 = fs s \<or> fs s1 = (fs s)(?cg \<mapsto> Dir)" by (auto simp: enter_def)
  from write_text_ok [OF b] obtain q where
    q: "resolve (fs s1) (?cg @ [''memory.max'']) = Some q" "fs s2 = (fs s1)(q \<mapsto> File (str_int (mem * 1024 * 1024)))"
    by blast
  from write_text_ok [OF c] obtain q' where
    q': "resolve (fs s2) (?cg @ [''cpu.max'']) = Some q'" "fs s' = (fs s2)(q' \<mapsto> File (str_int (cpu * 1000) @ '' 100000''))"
    by blast
  have "\<forall>t. fs s1 (?cg @ [''cpu.max'']) \<noteq> Some (Symlink t)" using f1 nc by auto
  then have "\<forall>t. fs s2 (?cg @ [''cpu.max'']) \<noteq> Some (Symlink t)" using q(2) by auto
  from resolve_not_link [of "fs s2" "?cg @ [''cpu.max'']"] this q'(1)
  have q'eq: "q' = ?cg @ [''cpu.max'']" by simp
  then show "fs s' (?cg @ [''cpu.max'']) = Some (File (str_int (cpu * 1000) @ '' 100000''))"
    using q'(2) by simp
  assume nm: "\<forall>t. fs s (?cg @ [''memory.max'']) \<noteq> Some (Symlink t)"
  then have "\<forall>t. fs s1 (?cg @ [''memory.max'']) \<noteq> Some (Symlink t)" using f1 by auto
  from resolve_not_link [of "fs s1" "?cg @ [''memory.max'']"] this q(1)
  have "q = ?cg @ [''memory.max'']" by simp
  then show "fs s' (?cg @ [''memory.max'']) = Some (File (str_int (mem * 1024 * 1024)))"
    using q(2) q'(2) q'eq by simp
qed

section \<open>The limits written by CGroupManager.create\<close>

text \<open>
  Claim C4. When \<^verbatim>\<open>CGroupManager.create(memory_mb, cpu_percent)\<close> completes, it has
  written to \<^verbatim>\<open>memory.max\<close> of the group exactly once, and the text written is the
  decimal numeral of \<open>memory_mb * 1024 * 1024\<close>; the file holds that text afterwards
  (when neither limit file is a symbolic link), and for a positive \<open>memory_mb\<close> the
  numeral reads back as that number.
\<close>

theorem create_writes_memory_max:
  assumes "CGroupManager_create e nm mem cpu s = (Inr (), s')"
    and "trace s' = trace s @ evs"
  shows "Sys (WriteText (joinpath (CGroupManager_path nm) ''memory.max'') (str_int (mem * 1024 * 1024))) True \<in> set evs
       \<and> (\<forall>d b. Sys (WriteText (joinpath (CGroupManager_path nm) ''memory.max'') d) b \<in> set evs
             \<longrightarrow> d = str_int (mem * 1024 * 1024))
       \<and> ((\<forall>t. fs s (joinpath (CGroupManager_path nm) ''memory.max'') \<noteq> Some (Symlink t)) \<and>
          (\<forall>t. fs s (joinpath (CGroupManager_path nm) ''cpu.max'') \<noteq> Some (Symlink t))
           \<longrightarrow> fs s' (joinpath (CGroupManager_path nm) ''memory.max'') = Some (File (str_int (mem * 1024 * 1024))))
       \<and> (0 < mem \<longrightarrow> dec_val (str_int (mem * 1024 * 1024)) = nat mem * 1024 * 1024)"
proof -
  from CGroupManager_create_trace [OF assms(1)] assms(2) obtain b where
    evs: "evs = [Enter ''CGroupManager.create'', Sys (Mkdir (CGroupManager_path nm)) b,
            Sys (WriteText (CGroupManager_path nm @ [''memory.max'']) (str_int (mem * 1024 * 1024))) True,
            Sys (WriteText (CGroupManager_path nm @ [''cpu.max'']) (str_int (cpu * 1000) @ '' 100000'')) True]"
    by auto
  have dec: "0 < mem \<Longrightarrow> dec_val (str_int (mem * 1024 * 1024)) = nat mem * 1024 * 1024"
    by (simp add: str_int_def dec_val_str_nat nat_mult_distrib)
  show ?thesis
    using evs CGroupManager_create_fs(2) [OF assms(1)] dec by auto
qed

theorem create_writes_memory_max_witness:
  "fst (CGroupManager_create host_env ''demo'' 50 25 host_state) = Inr ()
   \<and> fs (snd (CGroupManager_create host_env ''demo'' 50 25 host_state))
        [''sys'', ''fs'', ''cgroup'', ''demo'', ''memory.max''] = Some (File ''52428800'')
   \<and> dec_val ''52428800'' = 50 * 1024 * 1024"
proof -
  let ?r = "CGroupManager_create host_env ''demo'' 50 25 host_state"
  have ok: "fst ?r = Inr ()"
    by (simp add: CGroupManager_create_def CGroupManager_path_def Path_def host_defs call_defs)
  then have h: "?r = (Inr (), snd ?r)" by (metis prod.collapse)
  have t: "trace (snd ?r) = trace host_state @ trace (snd ?r)" by (simp add: host_state_def)
  have p: "joinpath (CGroupManager_path ''demo'') ''memory.max'' = [''sys'', ''fs'', ''cgroup'', ''demo'', ''memory.max'']"
    by (simp add: CGroupManager_path_def Path_def)
  have p2: "joinpath (CGroupManager_path ''demo'') ''cpu.max'' = [''sys'', ''fs'', ''cgroup'', ''demo'', ''cpu.max'']"
    by (simp add: CGroupManager_path_def Path_def)
  have v: "str_int (50 * 1024 * 1024) = ''52428800''"
    by (simp add: str_int_def str_nat.simps)
  have n1: "\<forall>t. fs host_state [''sys'', ''fs'', ''cgroup'', ''demo'', ''memory.max''] \<noteq> Some (Symlink t)"
    by (simp add: host_state_def host_fs_def)
  have n2: "\<forall>t. fs host_state [''sys'', ''fs'', ''cgroup'', ''demo'', ''cpu.max''] \<noteq> Some (Symlink t)"
    by (simp add: host_state_def host_fs_def)
  from create_writes_memory_max [OF h t] n1 n2 ok show ?thesis
    unfolding p p2 v by simp
qed

text \<open>
  Claim C5. When \<^verbatim>\<open>CGroupManager.create(memory_mb, cpu_percent)\<close> completes, it has
  written to \<^verbatim>\<open>cpu.max\<close> of the group exactly once, and the text written is the decimal
  numeral of \<open>cpu_percent * 1000\<close>, a space, and \<open>100000\<close>; the file holds that text
  afterwards (when it is not a symbolic link).
\<close>

theorem create_writes_cpu_max:
  assumes "CGroupManager_create e nm mem cpu s = (Inr (), s')"
    and "trace s' = trace s @ evs"
  shows "Sys (WriteText (joinpath (CGroupManager_path nm) ''cpu.max'') (str_int (cpu * 1000) @ '' 100000'')) True \<in> set evs
       \<and> (\<forall>d b. Sys (WriteText (joinpath (CGroupManager_path nm) ''cpu.max'') d) b \<in> set evs
             \<longrightarrow> d = str_int (cpu * 1000) @ '' 100000'')
       \<and> ((\<forall>t. fs s (joinpath (CGroupManager_path nm) ''cpu.max'') \<noteq> Some (Symlink t))
           \<longrightarrow> fs s' (joinpath (CGroupManager_path nm) ''cpu.max'') = Some (File (str_int (cpu * 1000) @ '' 100000'')))"
proof -
  from CGroupManager_create_trace [OF assms(1)] assms(2) obtain b where
    evs: "evs = [Enter ''CGroupManager.create'', Sys (Mkdir (CGroupManager_path nm)) b,
            Sys (WriteText (CGroupManager_path nm @ [''memory.max'']) (str_int (mem * 1024 * 1024))) True,
            Sys (WriteText (CGroupManager_path nm @ [''cpu.max'']) (str_int (cpu * 1000) @ '' 100000'')) True]"
    by auto
  show ?thesis
    using evs CGroupManager_create_fs(1) [OF assms(1)] by auto
qed

theorem create_writes_cpu_max_witness:
  "fst (CGroupManager_create host_env ''demo'' 50 25 host_state) = Inr ()
   \<and> fs (snd (CGroupManager_create host_env ''demo'' 50 25 host_state))
        [''sys'', ''fs'', ''cgroup'', ''demo'', ''cpu.max''] = Some (File ''25000 100000'')"
proof -
  let ?r = "CGroupManager_create host_env ''demo'' 50 25 host_state"
  have ok: "fst ?r = Inr ()"
    by (simp add: CGroupManager_create_def CGroupManager_path_def Path_def host_defs call_defs)
  then have h: "?r = (Inr (), snd ?r)" by (metis prod.collapse)
  have t: "trace (snd ?r) = trace host_state @ trace (snd ?r)" by (simp add: host_state_def)
  have p2: "joinpath (CGroupManager_path ''demo'') ''cpu.max'' = [''sys'', ''fs'', ''cgroup'', ''demo'', ''cpu.max'']"
    by (simp add: CGroupManager_path_def Path_def)
  have v: "str_int (25 * 1000) @ '' 100000'' = ''25000 100000''"
    by (simp add: str_int_def str_nat.simps)
  have n2: "\<forall>t. fs host_state [''sys'', ''fs'', ''cgroup'', ''demo'', ''cpu.max''] \<noteq> Some (Symlink t)"
    by (simp add: host_state_def host_fs_def)
  from create_writes_cpu_max [OF h t] n2 ok show ?thesis
    unfolding p2 v by simp
qed

lemma emitsI:
  assumes "\<And>s. \<exists>evs. trace (snd (m s)) = trace s @ evs \<and> list_all P evs"
  shows "emits P m"
  using assms by (simp add: emits_def)

lemma emitsD:
  assumes "emits P m"
  shows "\<exists>evs. trace (snd (m s)) = trace s @ evs \<and> list_all P evs"
  using assms by (simp add: emits_def)

lemma emits_return: "emits P (\<lambda>s. (r, s))"
  by (simp add: emits_def)

lemma emits_print_line: "emits P (print_line e t)"
  by (simp add: emits_def print_line_def)

lemma emits_syscall:
  assumes "P (Sys c True)" "P (Sys c False)"
  shows "emits P (syscall e c eff)"
  using assms by (auto simp: emits_def syscall_def split: sum.splits option.splits if_splits)

lemma emits_andThen:
  assumes m: "emits P m" and f: "\<And>x. emits P (f x)"
  shows "emits P (andThen m f)"
proof (rule emitsI)
  fix s
  obtain r s1 where ms: "m s = (r, s1)" by (cases "m s")
  from emitsD [OF m, of s] ms obtain evs where
    e1: "trace s1 = trace s @ evs" "list_all P evs" by auto
  show "\<exists>evs. trace (snd (andThen m f s)) = trace s @ evs \<and> list_all P evs"
  proof (cases r)
    case (Inl err)
    with ms e1 show ?thesis by (auto simp: andThen_def)
  next
    case (Inr x)
    from emitsD [OF f, of x s1] obtain evs' where
      "trace (snd (f x s1)) = trace s1 @ evs'" "list_all P evs'" by auto
    with ms e1 Inr show ?thesis by (auto simp: andThen_def)
  qed
qed

lemma emits_enter:
  assumes "P (Enter n)" "emits P m"
  shows "emits P (\<lambda>s. m (enter n s))"
proof (rule emitsI)
  fix s
  from emitsD [OF assms(2), of "enter n s"] obtain evs where
    "trace (snd (m (enter n s))) = trace (enter n s) @ evs" "list_all P evs" by auto
  with assms(1) show "\<exists>evs. trace (snd (m (enter n s))) = trace s @ evs \<and> list_all P evs"
    by (auto simp: enter_def)
qed

lemma emits_for_each:
  assumes "\<And>x. emits P (body x)"
  shows "emits P (for_each body xs)"
proof (induction xs)
  case Nil
  show ?case by (simp add: emits_def)
next
  case (Cons x xs)
  have "for_each body (x # xs) = andThen (body x) (\<lambda>u. for_each body xs)"
    by (rule ext) (simp add: andThen_def split: prod.splits sum.splits)
  then show ?case using emits_andThen [OF assms [of x], of "\<lambda>u. for_each body xs"] Cons by simp
qed


lemma Path_mkdir_trace:
  assumes P: "\<forall>q b. P (Sys (Mkdir q) b)"
  shows "\<exists>evs. trace (snd (Path_mkdir e parents ok p s)) = trace s @ evs \<and> list_all P evs"
proof (induction e parents ok p s rule: Path_mkdir.induct)
  case (1 e parents ok p s)
  obtain r s1 where m: "os_mkdir e p s = (r, s1)" by (cases "os_mkdir e p s")
  have "emits P (os_mkdir e p)" unfolding os_mkdir_def using P by (intro emits_syscall) auto
  from emitsD [OF this, of s] m obtain evs1 where
    e1: "trace s1 = trace s @ evs1" "list_all P evs1" by auto
  show ?case
  proof (cases r)
    case (Inr u)
    with m e1 show ?thesis by (subst Path_mkdir.simps) auto
  next
    case (Inl err)
    show ?thesis
    proof (cases "err = OSError ENOENT \<and> parents \<and> p \<noteq> []")
      case False
      with m e1 Inl show ?thesis by (subst Path_mkdir.simps) auto
    next
      case True
      obtain r2 s2 where m2: "Path_mkdir e True True (butlast p) s1 = (r2, s2)"
        by (cases "Path_mkdir e True True (butlast p) s1")
      have "\<exists>evs. trace (snd (Path_mkdir e True True (butlast p) s1)) = trace s1 @ evs \<and> list_all P evs"
        using "1.IH"(1) [of r s1 err] m Inl True by simp
      with m2 obtain evs2 where
        e2: "trace s2 = trace s1 @ evs2" "list_all P evs2" by auto
      show ?thesis
      proof (cases r2)
        case (Inl err2)
        with m m2 e1 e2 True \<open>r = Inl err\<close> show ?thesis by (subst Path_mkdir.simps) auto
      next
        case (Inr u)
        have "\<exists>evs. trace (snd (Path_mkdir e False ok p s2)) = trace s2 @ evs \<and> list_all P evs"
          using "1.IH"(2) [of r s1 err r2 s2 u] m \<open>r = Inl err\<close> True m2 Inr by simp
        then obtain evs3 where
          e3: "trace (snd (Path_mkdir e False ok p s2)) = trace s2 @ evs3" "list_all P evs3" by auto
        with m m2 e1 e2 True \<open>r = Inl err\<close> Inr show ?thesis by (subst Path_mkdir.simps) auto
      qed
    qed
  qed
qed

lemma emits_Path_mkdir:
  assumes "\<forall>q b. P (Sys (Mkdir q) b)"
  shows "emits P (Path_mkdir e parents ok p)"
  using Path_mkdir_trace [of P e parents ok p] assms by (simp add: emits_def)

lemma emits_pointwise:
  assumes "\<And>s. \<exists>m'. emits P m' \<and> m s = m' s"
  shows "emits P m"
proof (rule emitsI)
  fix s
  from assms [of s] obtain m' where m': "emits P m'" "m s = m' s" by blast
  from emitsD [OF m'(1), of s] m'(2)
  show "\<exists>evs. trace (snd (m s)) = trace s @ evs \<and> list_all P evs" by simp
qed

lemma emits_if:
  assumes "emits P m" "emits P m'"
  shows "emits P (\<lambda>s. if c s then m s else m' s)"
  by (rule emits_pointwise) (use assms in auto)

lemma emits_os_mkdir:
  assumes "\<forall>q b. P (Sys (Mkdir q) b)"
  shows "emits P (os_mkdir e p)"
  unfolding os_mkdir_def using assms by (intro emits_syscall) auto

lemma emits_mkdtemp_names:
  assumes P: "\<forall>q b. P (Sys (Mkdir q) b)"
  shows "emits P (mkdtemp_names e pre ns)"
proof (induction ns)
  case Nil
  show ?case by (simp add: emits_def)
next
  case (Cons n ns)
  show ?case
  proof (rule emitsI)
    fix s
    obtain r s1 where m: "os_mkdir e (Path (tmpdir e @ ''/'' @ pre @ n)) s = (r, s1)"
      by (cases "os_mkdir e (Path (tmpdir e @ ''/'' @ pre @ n)) s")
    from emitsD [OF emits_os_mkdir [OF P], of e "Path (tmpdir e @ ''/'' @ pre @ n)" s] m
    obtain evs1 where e1: "trace s1 = trace s @ evs1" "list_all P evs1" by auto
    from emitsD [OF Cons, of s1] obtain evs2 where
      e2: "trace (snd (mkdtemp_names e pre ns s1)) = trace s1 @ evs2" "list_all P evs2" by auto
    show "\<exists>evs. trace (snd (mkdtemp_names e pre (n # ns) s)) = trace s @ evs \<and> list_all P evs"
      using m e1 e2 by (cases r) auto
  qed
qed

lemma emits_subprocess_run:
  assumes "\<forall>b. P (Sys (Spawn argv) b)"
  shows "emits P (subprocess_run e argv chk)"
  using assms by (auto simp: emits_def subprocess_run_def split: proc_result.splits if_splits)

lemma setup_event_simps [simp]:
  "setup_event cg (Sys (Mkdir p) b)"
  "setup_event cg (Sys (Copy2 p q) b)"
  "setup_event cg (Sys (Chmod p k) b)"
  "setup_event cg (Sys (SymlinkTo p t) b)"
  "setup_event cg (Sys (Spawn [''ldd'', ''/usr/bin/bash'']) b)"
  "setup_event cg (Sys (WriteText (cg @ [''memory.max'']) d) b)"
  "setup_event cg (Sys (WriteText (cg @ [''cpu.max'']) d) b)"
  "setup_event cg (Enter ''CGroupManager.create'')"
  "setup_event cg (Enter ''RootFSManager.create'')"
  by (simp_all add: setup_event_def)

lemma emits_calls [intro]:
  "emits (setup_event cg) (symlink_to e p t)"
  "emits (setup_event cg) (copy2 e src dst)"
  "emits (setup_event cg) (Path_chmod e p k)"
  "emits (setup_event cg) (Path_mkdir e pa ok p)"
  "emits (setup_event cg) (mkdtemp e pre)"
  "emits (setup_event cg) (subprocess_run e [''ldd'', ''/usr/bin/bash''] chk)"
  "emits (setup_event cg) (write_text e (cg @ [''memory.max'']) d)"
  "emits (setup_event cg) (write_text e (cg @ [''cpu.max'']) d)"
  by (auto simp: symlink_to_def copy2_def Path_chmod_def mkdtemp_def write_text_def
           intro!: emits_syscall emits_Path_mkdir emits_mkdtemp_names emits_subprocess_run)

lemma emits_link_commands: "emits (setup_event cg) (link_commands e root cmds)"
  unfolding link_commands_def
proof (rule emits_for_each)
  fix cmd
  have "link_command e root cmd =
          (\<lambda>s. if \<not> path_exists (fs s) (joinpath (joinpath root ''bin'') cmd)
               then symlink_to e (joinpath (joinpath root ''bin'') cmd) ''busybox'' s
               else (Inr (), s))"
    by (rule ext) (simp add: link_command_def)
  then show "emits (setup_event cg) (link_command e root cmd)"
    by (simp only:) (intro emits_if emits_calls emits_return)
qed

lemma emits_setup_busybox: "emits (setup_event cg) (RootFSManager_setup_busybox e)"
proof (rule emits_pointwise)
  fix s
  show "\<exists>m'. emits (setup_event cg) m' \<and> RootFSManager_setup_busybox e s = m' s"
  proof (cases "find (os_path_exists s) busybox_paths")
    case None
    then show ?thesis
      by (intro exI [of _ "\<lambda>s. (Inr False, s)"]) (simp add: RootFSManager_setup_busybox_def emits_return)
  next
    case (Some src)
    show ?thesis
    proof (cases "rootfs s")
      case None
      with Some show ?thesis
        by (intro exI [of _ "\<lambda>s. (Inl TypeError, s)"]) (simp add: RootFSManager_setup_busybox_def emits_return)
    next
      case (Some root)
      with \<open>find (os_path_exists s) busybox_paths = Some src\<close> show ?thesis
        by (intro exI [of _ "andThen (copy2 e (Path src) (joinpath root ''bin/busybox'')) (\<lambda>u.
               andThen (Path_chmod e (joinpath root ''bin/busybox'') 493) (\<lambda>u.
               andThen (link_commands e root commands) (\<lambda>u s'. (Inr True, s'))))"])
           (auto simp: RootFSManager_setup_busybox_def intro!: emits_andThen emits_link_commands emits_return)
    qed
  qed
qed

lemma emits_copy_lib: "emits (setup_event cg) (copy_lib e root line)"
proof (rule emits_pointwise)
  fix s
  show "\<exists>m'. emits (setup_event cg) m' \<and> copy_lib e root line s = m' s"
  proof (cases "\<exists>lp. lib_path_of s line = Inr (Some lp) \<and> lp \<noteq> [] \<and> os_path_exists s lp")
    case False
    then have "\<exists>r. copy_lib e root line s = (r, s)"
      by (auto simp: copy_lib_def split: sum.splits option.splits)
    then obtain r where "copy_lib e root line s = (r, s)" by blast
    then show ?thesis by (intro exI [of _ "\<lambda>s. (r, s)"]) (simp add: emits_return)
  next
    case True
    then obtain lp where lp: "lib_path_of s line = Inr (Some lp)" "lp \<noteq> []" "os_path_exists s lp" by blast
    let ?m = "andThen (Path_mkdir e True True (butlast (joinpath root (lstrip_slash lp)))) (\<lambda>u s'.
              if \<not> path_exists (fs s') (joinpath root (lstrip_slash lp))
              then copy2 e (Path lp) (joinpath root (lstrip_slash lp)) s'
              else (Inr (), s'))"
    have "emits (setup_event cg) ?m"
      by (intro emits_andThen emits_if emits_calls emits_return)
    moreover have "copy_lib e root line s = ?m s" using lp by (simp add: copy_lib_def)
    ultimately show ?thesis by blast
  qed
qed

lemma emits_try_except:
  assumes "emits P m"
  shows "emits P (\<lambda>s. case m s of
                    (Inl err, s2) \<Rightarrow> (case err of CalledProcessError rc \<Rightarrow> (Inr (), s2) | _ \<Rightarrow> (Inl err, s2))
                  | (Inr u, s2) \<Rightarrow> (Inr u, s2))"
proof (rule emitsI)
  fix s
  from emitsD [OF assms, of s] obtain evs where "trace (snd (m s)) = trace s @ evs" "list_all P evs" by auto
  then show "\<exists>evs. trace (snd (case m s of
                    (Inl err, s2) \<Rightarrow> (case err of CalledProcessError rc \<Rightarrow> (Inr (), s2) | _ \<Rightarrow> (Inl err, s2))
                  | (Inr u, s2) \<Rightarrow> (Inr u, s2))) = trace s @ evs \<and> list_all P evs"
    by (auto split: prod.splits sum.splits exn.splits)
qed

lemma emits_copy_bash: "emits (setup_event cg) (RootFSManager_copy_bash e)"
proof (rule emits_pointwise)
  fix s
  show "\<exists>m'. emits (setup_event cg) m' \<and> RootFSManager_copy_bash e s = m' s"
  proof (cases "os_path_exists s ''/usr/bin/bash''")
    case False
    then show ?thesis
      by (intro exI [of _ "\<lambda>s. (Inr (), s)"]) (simp add: RootFSManager_copy_bash_def emits_return)
  next
    case True
    show ?thesis
    proof (cases "rootfs s")
      case None
      with True show ?thesis
        by (intro exI [of _ "\<lambda>s. (Inl TypeError, s)"]) (simp add: RootFSManager_copy_bash_def emits_return)
    next
      case (Some root)
      let ?m = "andThen (copy2 e (Path ''/usr/bin/bash'') (joinpath root ''bin/bash'')) (\<lambda>u.
             andThen (Path_chmod e (joinpath root ''bin/bash'') 493) (\<lambda>u s1.
               (case andThen (subprocess_run e [''ldd'', ''/usr/bin/bash''] False)
                       (\<lambda>res. for_each (copy_lib e root) (splitlines (snd res))) s1 of
                  (Inl err, s2) \<Rightarrow>
                    (case err of CalledProcessError rc \<Rightarrow> (Inr (), s2) | _ \<Rightarrow> (Inl err, s2))
                | (Inr u, s2) \<Rightarrow> (Inr u, s2))))"
      have "emits (setup_event cg) ?m"
        by (intro emits_andThen emits_try_except emits_for_each emits_calls emits_copy_lib)
      moreover have "RootFSManager_copy_bash e s = ?m s"
        using True Some by (simp add: RootFSManager_copy_bash_def)
      ultimately show ?thesis by blast
    qed
  qed
qed

lemma emits_rootfs_update:
  assumes "emits P m"
  shows "emits P (\<lambda>s. m (s\<lparr>rootfs := r\<rparr>))"
proof (rule emitsI)
  fix s
  from emitsD [OF assms, of "s\<lparr>rootfs := r\<rparr>"]
  show "\<exists>evs. trace (snd (m (s\<lparr>rootfs := r\<rparr>))) = trace s @ evs \<and> list_all P evs" by simp
qed

lemma emits_RootFSManager_create: "emits (setup_event cg) (RootFSManager_create e nm)"
proof -
  have "RootFSManager_create e nm =
     (\<lambda>s. andThen (mkdtemp e (''container_'' @ nm @ ''_'')) (\<lambda>t s1.
       andThen (for_each (\<lambda>d. Path_mkdir e True True (joinpath (Path t) d)) skeleton_dirs) (\<lambda>u.
       andThen (RootFSManager_setup_busybox e) (\<lambda>ok.
         if \<not> ok then (\<lambda>s'. (Inl busybox_missing, s'))
         else andThen (RootFSManager_copy_bash e) (\<lambda>u.
              andThen (print_line e (check_mark @ '' RootFS: '' @ str_path (Path t))) (\<lambda>u s'.
                (Inr (Path t), s')))))
       (s1\<lparr>rootfs := Some (Path t)\<rparr>))
     (enter ''RootFSManager.create'' s))"
    by (rule ext) (simp add: RootFSManager_create_def)
  moreover have "emits (setup_event cg) \<dots>"
    by (intro emits_enter emits_andThen emits_rootfs_update emits_for_each emits_calls
          emits_setup_busybox)
       (auto intro!: emits_andThen emits_return emits_copy_bash emits_print_line)
  ultimately show ?thesis by simp
qed

lemma emits_CGroupManager_create:
  "emits (setup_event (CGroupManager_path nm)) (CGroupManager_create e nm mem cpu)"
proof -
  have "CGroupManager_create e nm mem cpu =
     (\<lambda>s. andThen (Path_mkdir e False True (CGroupManager_path nm)) (\<lambda>u.
     andThen (write_text e (CGroupManager_path nm @ [''memory.max''])
                (str_int (mem * 1024 * 1024))) (\<lambda>u.
     andThen (write_text e (CGroupManager_path nm @ [''cpu.max''])
                (str_int (cpu * 1000) @ '' 100000'')) (\<lambda>u.
     print_line e (check_mark @ '' CGroup: '' @ str_int mem @ ''MB RAM, '' @ str_int cpu @ ''% CPU''))))
     (enter ''CGroupManager.create'' s))"
    by (rule ext) (simp add: CGroupManager_create_def)
  moreover have "emits (setup_event (CGroupManager_path nm)) \<dots>"
    by (intro emits_enter emits_andThen emits_calls emits_print_line) simp
  ultimately show ?thesis by simp
qed

lemma syscall_trace:
  "\<exists>b. trace (snd (syscall e c eff s)) = trace s @ [Sys c b] \<and> (b \<longleftrightarrow> fst (syscall e c eff s) = Inr ())
       \<and> rootfs (snd (syscall e c eff s)) = rootfs s"
  by (auto simp: syscall_def split: sum.splits option.splits if_splits)




lemma CGroupManager_cleanup_cases:
  "\<exists>b s'. trace s' = trace s @ [Enter ''CGroupManager.cleanup'', Sys (Rmdir (CGroupManager_path nm)) b]
     \<and> rootfs s' = rootfs s
     \<and> (if has_nul (Rmdir (CGroupManager_path nm))
         then CGroupManager_cleanup e nm s = (Inl ValueError, s')
         else CGroupManager_cleanup e nm s = (Inr (), s'))"
proof -
  let ?s0 = "enter ''CGroupManager.cleanup'' s"
  let ?c = "Rmdir (CGroupManager_path nm)"
  obtain r s1 where m: "Path_rmdir e (CGroupManager_path nm) ?s0 = (r, s1)"
    by (cases "Path_rmdir e (CGroupManager_path nm) ?s0")
  from syscall_trace [of e ?c "rmdir_eff (CGroupManager_path nm)" ?s0] m
  obtain b where t: "trace s1 = trace ?s0 @ [Sys ?c b]" "rootfs s1 = rootfs ?s0"
    by (auto simp: Path_rmdir_def)
  from m have sc: "syscall e ?c (rmdir_eff (CGroupManager_path nm)) ?s0 = (r, s1)"
    by (simp add: Path_rmdir_def)
  have "if has_nul ?c then CGroupManager_cleanup e nm s = (Inl ValueError, s1)
        else CGroupManager_cleanup e nm s = (Inr (), s1)"
  proof (cases "has_nul ?c")
    case True
    with syscall_cases [OF sc] have "r = Inl ValueError" by auto
    with m True show ?thesis by (simp add: CGroupManager_cleanup_def is_OSError_def)
  next
    case False
    with syscall_cases [OF sc] have "r = Inr () \<or> (\<exists>err. r = Inl (OSError err))" by auto
    with m False show ?thesis by (auto simp: CGroupManager_cleanup_def is_OSError_def)
  qed
  with t show ?thesis by (auto simp: enter_def)
qed


lemma RootFSManager_cleanup_trace:
  "\<exists>post. trace (snd (RootFSManager_cleanup e s)) = trace s @ Enter ''RootFSManager.cleanup'' # post
      \<and> (post = [] \<or> (\<exists>root b. rootfs s = Some root \<and> post = [Sys (Rmtree root) b]))"
proof (cases "rootfs s")
  case None
  then show ?thesis by (simp add: RootFSManager_cleanup_def enter_def)
next
  case (Some root)
  show ?thesis
  proof (cases "path_exists (fs s) root")
    case False
    with Some show ?thesis by (simp add: RootFSManager_cleanup_def enter_def)
  next
    case True
    from syscall_trace [of e "Rmtree root" "rmtree_eff root" "enter ''RootFSManager.cleanup'' s"]
    show ?thesis using Some True by (auto simp: RootFSManager_cleanup_def rmtree_def enter_def)
  qed
qed

lemma exit_code_utf8:
  assumes "stdout_utf8 e"
  shows "handle_exn e r s = (exit_code r, s)"
  using assms by (auto simp: handle_exn_def exit_code_def andThen_def split: sum.splits)

lemma Container_cleanup_utf8:
  assumes "stdout_utf8 e"
  shows "Container_cleanup e cfg s =
     andThen (CGroupManager_cleanup e (name cfg)) (\<lambda>u. RootFSManager_cleanup e) s"
  using assms by (auto simp: Container_cleanup_def andThen_def split: prod.splits sum.splits)

lemma Container_cleanup_ascii:
  assumes "\<not> stdout_utf8 e"
  shows "Container_cleanup e cfg s = (Inl UnicodeEncodeError, s)"
  using assms by (simp add: Container_cleanup_def andThen_def print_line_def)

lemma Container_run_utf8:
  assumes "stdout_utf8 e"
  shows "Container_run e cfg s =
     (case Container_try e cfg s of
        (r, s1) \<Rightarrow>
          (case Container_cleanup e cfg s1 of
             (Inl err, s2) \<Rightarrow> (Inl err, s2)
           | (Inr u, s2) \<Rightarrow> (exit_code r, s2)))"
  using assms by (simp add: Container_run_def andThen_def exit_code_utf8 split: prod.splits)

lemma Container_run_ascii:
  assumes "\<not> stdout_utf8 e"
  shows "Container_run e cfg s = (Inl UnicodeEncodeError, s)"
  using assms by (simp add: Container_run_def andThen_def print_line_def)

lemma emits_CGroupManager_cleanup: "emits cleanup_event (CGroupManager_cleanup e nm)"
proof (rule emitsI)
  fix s
  from CGroupManager_cleanup_cases [of s nm e] obtain b s' where
    "trace s' = trace s @ [Enter ''CGroupManager.cleanup'', Sys (Rmdir (CGroupManager_path nm)) b]"
    "CGroupManager_cleanup e nm s = (Inl ValueError, s') \<or> CGroupManager_cleanup e nm s = (Inr (), s')"
    by (auto split: if_splits)
  then show "\<exists>evs. trace (snd (CGroupManager_cleanup e nm s)) = trace s @ evs \<and> list_all cleanup_event evs"
    by (auto simp: cleanup_event_def)
qed

lemma emits_RootFSManager_cleanup: "emits cleanup_event (RootFSManager_cleanup e)"
proof (rule emitsI)
  fix s
  from RootFSManager_cleanup_trace [of e s]
  show "\<exists>evs. trace (snd (RootFSManager_cleanup e s)) = trace s @ evs \<and> list_all cleanup_event evs"
    by (auto simp: cleanup_event_def)
qed

lemma emits_Container_cleanup: "emits cleanup_event (Container_cleanup e cfg)"
  unfolding Container_cleanup_def
  by (intro emits_andThen emits_print_line emits_CGroupManager_cleanup emits_RootFSManager_cleanup)


lemma Container_run_trace:
  assumes "stdout_utf8 e"
  shows "trace (snd (Container_run e cfg s)) =
     trace (snd (Container_cleanup e cfg (snd (Container_try e cfg s))))"
  by (simp add: Container_run_utf8 [OF assms] split: prod.splits sum.splits)

lemma Container_run_events:
  "trace (snd (Container_run e cfg s)) = trace s
   \<or> (\<exists>cl. trace (snd (Container_run e cfg s)) = trace (snd (Container_try e cfg s)) @ cl
            \<and> list_all cleanup_event cl)"
proof (cases "stdout_utf8 e")
  case False
  then show ?thesis by (simp add: Container_run_ascii)
next
  case True
  from emitsD [OF emits_Container_cleanup, of e cfg "snd (Container_try e cfg s)"]
  show ?thesis by (simp add: Container_run_trace [OF True])
qed



lemma add_process_trace:
  "\<exists>b. trace (snd (CGroupManager_add_process e nm pid s)) =
          trace s @ [Enter ''CGroupManager.add_process'',
                     Sys (WriteText (CGroupManager_path nm @ [''cgroup.procs'']) (str_int pid)) b]
       \<and> (b \<longleftrightarrow> fst (CGroupManager_add_process e nm pid s) = Inr ())"
  using syscall_trace [of e "WriteText (CGroupManager_path nm @ [''cgroup.procs'']) (str_int pid)"
          "write_eff (CGroupManager_path nm @ [''cgroup.procs'']) (str_int pid)"
          "enter ''CGroupManager.add_process'' s"]
  by (auto simp: CGroupManager_add_process_def write_text_def enter_def)

lemma subprocess_run_trace:
  "\<exists>b. trace (snd (subprocess_run e argv chk s)) = trace s @ [Sys (Spawn argv) b]"
  by (auto simp: subprocess_run_def split: proc_result.splits if_splits)

lemma Container_try_shape:
  "\<exists>pre. list_all (setup_event (CGroupManager_path (name cfg))) pre \<and>
     (trace (snd (Container_try e cfg s)) = trace s @ pre
      \<or> trace (snd (Container_try e cfg s)) = trace s @ pre @
           [Enter ''CGroupManager.add_process'',
            Sys (WriteText (CGroupManager_path (name cfg) @ [''cgroup.procs'']) (str_int (getpid e))) False]
      \<or> (\<exists>root b. trace (snd (Container_try e cfg s)) = trace s @ pre @
           [Enter ''CGroupManager.add_process'',
            Sys (WriteText (CGroupManager_path (name cfg) @ [''cgroup.procs'']) (str_int (getpid e))) True,
            Sys (Spawn (unshare_argv root (command cfg))) b]))"
proof -
  let ?cg = "CGroupManager_path (name cfg)"
  obtain r1 s1 where m1: "CGroupManager_create e (name cfg) (memory_mb cfg) (cpu_percent cfg) s = (r1, s1)"
    by (cases "CGroupManager_create e (name cfg) (memory_mb cfg) (cpu_percent cfg) s")
  have "emits (setup_event ?cg) (CGroupManager_create e (name cfg) (memory_mb cfg) (cpu_percent cfg))"
    by (rule emits_CGroupManager_create)
  from emitsD [OF this, of s] m1
  obtain evs1 where e1: "trace s1 = trace s @ evs1" "list_all (setup_event ?cg) evs1" by auto
  show ?thesis
  proof (cases r1)
    case (Inl err)
    with m1 have "Container_try e cfg s = (Inl err, s1)" by (simp add: Container_try_def andThen_def)
    with e1 show ?thesis by auto
  next
    case (Inr u1)
    obtain r2 s2 where m2: "RootFSManager_create e (name cfg) s1 = (r2, s2)"
      by (cases "RootFSManager_create e (name cfg) s1")
    have "emits (setup_event ?cg) (RootFSManager_create e (name cfg))"
      by (rule emits_RootFSManager_create)
    from emitsD [OF this, of s1] m2
    obtain evs2 where e2: "trace s2 = trace s1 @ evs2" "list_all (setup_event ?cg) evs2" by auto
    have pre: "list_all (setup_event ?cg) (evs1 @ evs2)" using e1 e2 by simp
    have t2: "trace s2 = trace s @ (evs1 @ evs2)" using e1 e2 by simp
    show ?thesis
    proof (cases r2)
      case (Inl err)
      with m1 m2 Inr have "Container_try e cfg s = (Inl err, s2)"
        by (simp add: Container_try_def andThen_def)
      with pre t2 show ?thesis by (intro exI [of _ "evs1 @ evs2"]) simp
    next
      case (Inr root)
      obtain rp where mp: "print_line e (msg_command @ command cfg @ [CHR 0x0A]) s2 = (rp, s2)"
        using print_line_cases [of e "msg_command @ command cfg @ [CHR 0x0A]" s2]
        by (cases "print_line e (msg_command @ command cfg @ [CHR 0x0A]) s2") auto
      show ?thesis
      proof (cases rp)
        case (Inl err)
        with m1 m2 mp \<open>r1 = Inr u1\<close> \<open>r2 = Inr root\<close> have "Container_try e cfg s = (Inl err, s2)"
          by (simp add: Container_try_def andThen_def)
        with pre t2 show ?thesis by (intro exI [of _ "evs1 @ evs2"]) simp
      next
        case (Inr up)
        obtain r3 s3 where m3: "CGroupManager_add_process e (name cfg) (getpid e) s2 = (r3, s3)"
          by (cases "CGroupManager_add_process e (name cfg) (getpid e) s2")
        from add_process_trace [of e "name cfg" "getpid e" s2] m3 obtain b where
          e3: "trace s3 = trace s2 @ [Enter ''CGroupManager.add_process'',
                       Sys (WriteText (?cg @ [''cgroup.procs'']) (str_int (getpid e))) b]"
              "b \<longleftrightarrow> r3 = Inr ()" by auto
        show ?thesis
        proof (cases r3)
          case (Inl err)
          with m1 m2 mp m3 \<open>r1 = Inr u1\<close> \<open>r2 = Inr root\<close> \<open>rp = Inr up\<close>
          have "Container_try e cfg s = (Inl err, s3)"
            by (simp add: Container_try_def andThen_def)
          moreover from Inl e3 have "\<not> b" by simp
          ultimately show ?thesis using pre t2 e3 by (intro exI [of _ "evs1 @ evs2"]) simp
        next
          case (Inr u3)
          with e3 have b by simp
          from m1 m2 mp m3 \<open>r1 = Inr u1\<close> \<open>r2 = Inr root\<close> \<open>rp = Inr up\<close> Inr
          have "trace (snd (Container_try e cfg s)) =
                  trace (snd (subprocess_run e (unshare_argv root (command cfg)) False s3))"
            by (simp add: Container_try_def andThen_def split: prod.splits sum.splits)
          with subprocess_run_trace [of e "unshare_argv root (command cfg)" False s3]
          obtain b' where "trace (snd (Container_try e cfg s)) =
               trace s3 @ [Sys (Spawn (unshare_argv root (command cfg))) b']" by auto
          with pre t2 e3 \<open>b\<close> show ?thesis by (intro exI [of _ "evs1 @ evs2"]) auto
        qed
      qed
    qed
  qed
qed

lemma unique_split:
  assumes "xs @ a # ys = us @ a # vs" "a \<notin> set us" "a \<notin> set vs"
  shows "xs = us \<and> ys = vs"
  using assms
proof (induction xs arbitrary: us)
  case Nil
  then show ?case by (cases us) auto
next
  case (Cons x xs)
  then show ?case by (cases us) auto
qed

text \<open>
  Claim C3. In the events of any run of \<^verbatim>\<open>Container.run\<close>: wherever the launch of the
  isolated process (\<^verbatim>\<open>unshare ... chroot\<close>) occurs, the successful write of the
  orchestrator's own pid to \<^verbatim>\<open>cgroup.procs\<close> of the group is among the events before
  it, and no write to \<^verbatim>\<open>cgroup.procs\<close> follows it; and every write to
  \<^verbatim>\<open>cgroup.procs\<close> in the run carries \<^verbatim>\<open>os.getpid()\<close>, never another pid.
\<close>

theorem enrolled_before_launch:
  assumes "trace (snd (Container_run e cfg s)) = trace s @ evs"
  shows "(\<forall>xs root cmd b ys. evs = xs @ Sys (Spawn (unshare_argv root cmd)) b # ys \<longrightarrow>
            Sys (WriteText (joinpath (CGroupManager_path (name cfg)) ''cgroup.procs'')
                   (str_int (getpid e))) True \<in> set xs
            \<and> (\<forall>p d b'. Sys (WriteText p d) b' \<notin> set ys))
       \<and> (\<forall>d b. Sys (WriteText (joinpath (CGroupManager_path (name cfg)) ''cgroup.procs'') d) b \<in> set evs
             \<longrightarrow> d = str_int (getpid e))"
proof -
  let ?cg = "CGroupManager_path (name cfg)"
  let ?E = "Enter ''CGroupManager.add_process''"
  let ?W = "\<lambda>b. Sys (WriteText (?cg @ [''cgroup.procs'']) (str_int (getpid e))) b"
  have "\<exists>pre mid. list_all (setup_event ?cg) pre
      \<and> trace (snd (Container_try e cfg s)) = trace s @ pre @ mid
      \<and> (mid = [] \<or> mid = [?E, ?W False]
              \<or> (\<exists>root b. mid = [?E, ?W True, Sys (Spawn (unshare_argv root (command cfg))) b]))"
  proof -
    from Container_try_shape [of cfg e s] obtain pre where
      p: "list_all (setup_event ?cg) pre"
      and d: "trace (snd (Container_try e cfg s)) = trace s @ pre
      \<or> trace (snd (Container_try e cfg s)) = trace s @ pre @ [?E, ?W False]
      \<or> (\<exists>root b. trace (snd (Container_try e cfg s)) = trace s @ pre @
           [?E, ?W True, Sys (Spawn (unshare_argv root (command cfg))) b])" by blast
    from d consider
      (a) "trace (snd (Container_try e cfg s)) = trace s @ pre @ []"
      | (b) "trace (snd (Container_try e cfg s)) = trace s @ pre @ [?E, ?W False]"
      | (c) root b where "trace (snd (Container_try e cfg s)) = trace s @ pre @
           [?E, ?W True, Sys (Spawn (unshare_argv root (command cfg))) b]" by auto
    then show ?thesis
    proof cases
      case a
      with p show ?thesis by blast
    next
      case b
      with p show ?thesis by blast
    next
      case c
      with p show ?thesis by blast
    qed
  qed
  then obtain pre mid where
    pre: "list_all (setup_event ?cg) pre"
    and tr: "trace (snd (Container_try e cfg s)) = trace s @ pre @ mid"
    and mid: "mid = [] \<or> mid = [?E, ?W False]
              \<or> (\<exists>root b. mid = [?E, ?W True, Sys (Spawn (unshare_argv root (command cfg))) b])"
    by blast
  from Container_run_events [of e cfg s] consider
    (none) "trace (snd (Container_run e cfg s)) = trace s"
    | (some) cl where "trace (snd (Container_run e cfg s)) = trace (snd (Container_try e cfg s)) @ cl"
        "list_all cleanup_event cl" by blast
  then show ?thesis
  proof cases
    case none
    with assms have "evs = []" by simp
    then show ?thesis by simp
  next
    case some
  note cl = some(2)
  have evs: "evs = pre @ mid @ cl"
    using assms some(1) tr by simp
  have cl_no_launch: "Sys (Spawn argv) b \<notin> set cl" for argv b
  proof
    assume "Sys (Spawn argv) b \<in> set cl"
    with cl have "cleanup_event (Sys (Spawn argv) b)" by (simp add: list_all_iff)
    then show False by (simp add: cleanup_event_def)
  qed
  have cl_no_write: "Sys (WriteText p d) b \<notin> set cl" for p d b
  proof
    assume "Sys (WriteText p d) b \<in> set cl"
    with cl have "cleanup_event (Sys (WriteText p d) b)" by (simp add: list_all_iff)
    then show False by (simp add: cleanup_event_def)
  qed
  have pre_no_launch: "Sys (Spawn (unshare_argv root cmd)) b \<notin> set pre" for root cmd b
  proof
    assume "Sys (Spawn (unshare_argv root cmd)) b \<in> set pre"
    with pre have "setup_event ?cg (Sys (Spawn (unshare_argv root cmd)) b)" by (simp add: list_all_iff)
    then show False by (simp add: setup_event_def unshare_argv_def)
  qed
  have pre_no_procs: "Sys (WriteText (?cg @ [''cgroup.procs'']) d) b \<notin> set pre" for d b
  proof
    assume "Sys (WriteText (?cg @ [''cgroup.procs'']) d) b \<in> set pre"
    with pre have "setup_event ?cg (Sys (WriteText (?cg @ [''cgroup.procs'']) d) b)" by (simp add: list_all_iff)
    then show False by (simp add: setup_event_def)
  qed
  have part1: "Sys (WriteText (?cg @ [''cgroup.procs'']) (str_int (getpid e))) True \<in> set xs
               \<and> (\<forall>p d b'. Sys (WriteText p d) b' \<notin> set ys)"
    if split: "evs = xs @ Sys (Spawn (unshare_argv root cmd)) b # ys" for xs root cmd b ys
  proof -
    let ?L = "Sys (Spawn (unshare_argv root cmd)) b"
    have "?L \<in> set evs" using split by simp
    then have "?L \<in> set mid" using evs pre_no_launch cl_no_launch by auto
    with mid obtain root' b' where
      m: "mid = [?E, ?W True, Sys (Spawn (unshare_argv root' (command cfg))) b']" by auto
    with \<open>?L \<in> set mid\<close> have L: "Sys (Spawn (unshare_argv root' (command cfg))) b' = ?L" by auto
    have "xs @ ?L # ys = (pre @ [?E, ?W True]) @ ?L # cl" using split evs m L by simp
    moreover have "?L \<notin> set (pre @ [?E, ?W True])" using pre_no_launch by auto
    moreover have "?L \<notin> set cl" using cl_no_launch by auto
    ultimately have "xs = pre @ [?E, ?W True] \<and> ys = cl" by (rule unique_split)
    then show ?thesis using cl_no_write by auto
  qed
  have part2: "d = str_int (getpid e)"
    if "Sys (WriteText (?cg @ [''cgroup.procs'']) d) b \<in> set evs" for d b
  proof -
    from that have "Sys (WriteText (?cg @ [''cgroup.procs'']) d) b \<in> set mid"
      using evs pre_no_procs cl_no_write by auto
    with mid show ?thesis by auto
  qed
  show ?thesis using part1 part2 by simp
  qed
qed

lemmas more_defs = mkdtemp_def copy2_def copy2_eff_def Path_chmod_def chmod_eff_def symlink_to_def
  symlink_eff_def rmtree_def rmtree_eff_def subprocess_run_def os_path_exists_def
  Path_rmdir_def rmdir_eff_def

lemmas prog_defs = CGroupManager_create_def CGroupManager_path_def CGroupManager_add_process_def
  CGroupManager_cleanup_def RootFSManager_create_def RootFSManager_setup_busybox_def
  RootFSManager_copy_bash_def RootFSManager_cleanup_def link_command_def link_commands_def
  Container_try_def Container_cleanup_def Container_run_def handle_exn_def unshare_argv_def
  busybox_paths_def commands_def skeleton_dirs_def busybox_missing_def is_OSError_def
  is_Exception_def str_path_def joinpath_def Path_def

lemmas eval_defs = prog_defs more_defs call_defs Path_mkdir.simps str_int_def str_nat.simps

lemma sample_create_group:
  "CGroupManager_create (sample_host r l) ''demo'' 50 25 host_state =
     (Inr (), \<lparr>fs = group_fs, trace = group_events, rootfs = None\<rparr>)"
  by (simp add: eval_defs sample_host_def host_state_def host_fs_def group_fs_def group_events_def)

lemma sample_create_rootfs:
  "RootFSManager_create (sample_host r l) ''demo'' \<lparr>fs = group_fs, trace = group_events, rootfs = None\<rparr> =
     (Inr demo_root, \<lparr>fs = rootfs_fs, trace = group_events @ rootfs_events, rootfs = Some demo_root\<rparr>)"
  by (simp add: eval_defs sample_host_def group_fs_def host_fs_def rootfs_fs_def rootfs_events_def demo_root_def)

lemma sample_enrol:
  "CGroupManager_add_process (sample_host r l) ''demo'' 4242
       \<lparr>fs = rootfs_fs, trace = group_events @ rootfs_events, rootfs = Some demo_root\<rparr> =
     (Inr (), \<lparr>fs = enrolled_fs, trace = group_events @ rootfs_events @ enrol_events, rootfs = Some demo_root\<rparr>)"
  by (simp add: eval_defs sample_host_def rootfs_fs_def group_fs_def host_fs_def enrolled_fs_def enrol_events_def)

lemma sample_host_sel [simp]:
  "getpid (sample_host r l) = 4242"
  "spawn (sample_host r l) argv = l"
  "fault (sample_host r l) (Rmtree p) = r"
  "fault (sample_host r l) (Rmdir p) = None"
  "stdout_utf8 (sample_host r l)"
  by (simp_all add: sample_host_def)

lemma sample_texts [simp]:
  "\<not> list_ex (\<lambda>w. CHR 0x00 \<in> set w) launch_argv"
  "\<not> list_ex (\<lambda>w. CHR 0x00 \<in> set w) demo_root"
  by (simp_all add: launch_argv_def demo_root_def)

lemma launch_argv_eq: "unshare_argv demo_root ''/bin/sh'' = launch_argv"
  by (simp add: unshare_argv_def demo_root_def launch_argv_def str_path_def)

lemma sample_try:
  "Container_try (sample_host r l) demo_config host_state =
     (case l of Exited rc out \<Rightarrow> Inr rc | NotFound \<Rightarrow> Inl (OSError ENOENT)
              | Interrupted \<Rightarrow> Inl KeyboardInterrupt,
      \<lparr>fs = enrolled_fs,
       trace = group_events @ rootfs_events @ enrol_events @
                 [Sys (Spawn launch_argv) (case l of Exited rc out \<Rightarrow> True | _ \<Rightarrow> False)],
       rootfs = Some demo_root\<rparr>)"
  by (cases l)
     (simp_all add: Container_try_def andThen_def demo_config_def sample_create_group
        sample_create_rootfs sample_enrol subprocess_run_def launch_argv_eq)

lemma enrolled_fs_group: "enrolled_fs [''sys'', ''fs'', ''cgroup'', ''demo''] = Some Dir"
  by (simp add: enrolled_fs_def rootfs_fs_def group_fs_def)

lemma enrolled_fs_root: "enrolled_fs demo_root = Some Dir"
  by (simp add: enrolled_fs_def rootfs_fs_def demo_root_def)

lemma group_not_above_root: "\<not> prefix [''sys'', ''fs'', ''cgroup'', ''demo''] demo_root"
  by (simp add: demo_root_def)

lemmas cleanup_defs = group_not_above_root Container_cleanup_def CGroupManager_cleanup_def RootFSManager_cleanup_def
  andThen_def enter_def Path_rmdir_def rmdir_eff_def rmtree_def rmtree_eff_def syscall_def
  demo_config_def CGroupManager_path_def Path_def enrolled_fs_group enrolled_fs_root
  path_exists_def resolve_def

lemma sample_cleanup_result:
  "fst (Container_cleanup (sample_host r l) demo_config \<lparr>fs = enrolled_fs, trace = t, rootfs = Some demo_root\<rparr>)
     = (case r of None \<Rightarrow> Inr () | Some err \<Rightarrow> Inl (OSError err))"
  by (cases r) (simp_all add: cleanup_defs)

lemma sample_cleanup_trace:
  "trace (snd (Container_cleanup (sample_host r l) demo_config \<lparr>fs = enrolled_fs, trace = t, rootfs = Some demo_root\<rparr>))
     = t @ [Enter ''CGroupManager.cleanup'', Sys (Rmdir [''sys'', ''fs'', ''cgroup'', ''demo'']) True,
            Enter ''RootFSManager.cleanup'', Sys (Rmtree demo_root) (r = None)]"
  by (cases r) (simp_all add: cleanup_defs)

lemma sample_run_trace:
  "trace (snd (Container_run (sample_host r l) demo_config host_state)) =
     (group_events @ rootfs_events @ enrol_events) @
       Sys (Spawn launch_argv) (case l of Exited rc out \<Rightarrow> True | _ \<Rightarrow> False) #
       [Enter ''CGroupManager.cleanup'', Sys (Rmdir [''sys'', ''fs'', ''cgroup'', ''demo'']) True,
        Enter ''RootFSManager.cleanup'', Sys (Rmtree demo_root) (r = None)]"
  by (simp add: Container_run_trace sample_try sample_cleanup_trace)

theorem enrolled_before_launch_witness:
  "trace (snd (Container_run (sample_host None (Exited 0 [])) demo_config host_state)) =
     trace host_state @
     ((group_events @ rootfs_events @ enrol_events) @
       Sys (Spawn (unshare_argv demo_root ''/bin/sh'')) True #
       [Enter ''CGroupManager.cleanup'', Sys (Rmdir [''sys'', ''fs'', ''cgroup'', ''demo'']) True,
        Enter ''RootFSManager.cleanup'', Sys (Rmtree demo_root) True])
   \<and> Sys (WriteText [''sys'', ''fs'', ''cgroup'', ''demo'', ''cgroup.procs''] ''4242'') True
       \<in> set (group_events @ rootfs_events @ enrol_events)"
proof -
  let ?e = "sample_host None (Exited 0 [])"
  let ?xs = "group_events @ rootfs_events @ enrol_events"
  let ?ys = "[Enter ''CGroupManager.cleanup'', Sys (Rmdir [''sys'', ''fs'', ''cgroup'', ''demo'']) True,
        Enter ''RootFSManager.cleanup'', Sys (Rmtree demo_root) True]"
  have t: "trace (snd (Container_run ?e demo_config host_state)) =
     trace host_state @ (?xs @ Sys (Spawn (unshare_argv demo_root ''/bin/sh'')) True # ?ys)"
  proof -
    have "trace host_state = []" by (simp add: host_state_def)
    then show ?thesis by (simp add: sample_run_trace launch_argv_eq)
  qed
  have p: "joinpath (CGroupManager_path (name demo_config)) ''cgroup.procs'' =
             [''sys'', ''fs'', ''cgroup'', ''demo'', ''cgroup.procs'']"
    by (simp add: CGroupManager_path_def Path_def demo_config_def)
  have v: "str_int (getpid ?e) = ''4242''"
    by (simp add: str_int_def str_nat.simps)
  from enrolled_before_launch [OF t]
  have "Sys (WriteText (joinpath (CGroupManager_path (name demo_config)) ''cgroup.procs'')
                   (str_int (getpid ?e))) True \<in> set ?xs"
    by blast
  with t show ?thesis unfolding p v by simp
qed

lemma write_text_raises:
  assumes "write_text e p d s = (Inl err, s')"
  shows "is_Exception err"
  using syscall_err [of e "WriteText p d" "write_eff p d" s err s'] assms
  by (auto simp: write_text_def is_Exception_def is_OSError_def)

lemma Path_mkdir_flat_raises:
  assumes "Path_mkdir e False ok p s = (Inl err, s')"
  shows "is_Exception err"
proof -
  obtain x s1 where o: "os_mkdir e p s = (x, s1)" by (cases "os_mkdir e p s")
  show ?thesis
  proof (cases x)
    case (Inr u)
    with o assms show ?thesis by (simp add: Path_mkdir_flat)
  next
    case (Inl y)
    with o syscall_err [of e "Mkdir p" "mkdir_eff p" s y s1] have "is_Exception y"
      by (auto simp: os_mkdir_def is_Exception_def is_OSError_def)
    with o Inl assms show ?thesis by (auto simp: Path_mkdir_flat split: if_splits)
  qed
qed

lemma print_line_raises:
  assumes "print_line e t s = (Inl err, s')"
  shows "is_Exception err"
  using print_line_cases [OF assms] by (auto simp: is_Exception_def)

lemma CGroupManager_create_raises:
  assumes "CGroupManager_create e nm mem cpu s = (Inl err, s')"
  shows "is_Exception err"
  using assms unfolding CGroupManager_create_def andThen_def
  by (auto split: prod.splits sum.splits
           dest: write_text_raises Path_mkdir_flat_raises print_line_raises)

lemma add_process_raises:
  assumes "CGroupManager_add_process e nm pid s = (Inl err, s')"
  shows "is_Exception err"
  using assms by (auto simp: CGroupManager_add_process_def dest: write_text_raises)

lemma Container_cleanup_stdout:
  assumes "fst (Container_cleanup e cfg s) = Inr ()"
  shows "stdout_utf8 e"
proof (rule ccontr)
  assume "\<not> stdout_utf8 e"
  from Container_cleanup_ascii [OF this, of cfg s] assms show False by simp
qed

lemma Container_run_result:
  assumes "fst (Container_cleanup e cfg (snd (Container_try e cfg s))) = Inr ()"
  shows "fst (Container_run e cfg s) = exit_code (fst (Container_try e cfg s))"
  using assms Container_run_utf8 [OF Container_cleanup_stdout [OF assms], of cfg s]
  by (auto split: prod.splits sum.splits)

text \<open>
  The exit code of a run whose \<^verbatim>\<open>finally\<close> clause completes. \<^verbatim>\<open>Container.run\<close> then
  returns: 1 when \<^verbatim>\<open>CGroupManager.create\<close> raises; 1 when \<^verbatim>\<open>RootFSManager.create\<close>
  raises an exception (130 if that is a \<^verbatim>\<open>KeyboardInterrupt\<close>); 1 when
  \<^verbatim>\<open>CGroupManager.add_process\<close> raises; and, when the launch is reached, the exit
  status of the launched process if it ran to its end, 130 on a
  \<^verbatim>\<open>KeyboardInterrupt\<close> while waiting for it, and 1 when the launch raised
  (\<^verbatim>\<open>unshare\<close> missing, a null byte in the command).
\<close>

lemma run_exit_code:
  assumes "fst (Container_cleanup e cfg (snd (Container_try e cfg s))) = Inr ()"
  shows
    "(\<forall>err s1. CGroupManager_create e (name cfg) (memory_mb cfg) (cpu_percent cfg) s = (Inl err, s1)
        \<longrightarrow> fst (Container_run e cfg s) = Inr 1)
   \<and> (\<forall>s1 err s2. CGroupManager_create e (name cfg) (memory_mb cfg) (cpu_percent cfg) s = (Inr (), s1)
        \<and> RootFSManager_create e (name cfg) s1 = (Inl err, s2)
        \<longrightarrow> fst (Container_run e cfg s) = Inr (if err = KeyboardInterrupt then 130 else 1))
   \<and> (\<forall>s1 root s2 err s3. CGroupManager_create e (name cfg) (memory_mb cfg) (cpu_percent cfg) s = (Inr (), s1)
        \<and> RootFSManager_create e (name cfg) s1 = (Inr root, s2)
        \<and> CGroupManager_add_process e (name cfg) (getpid e) s2 = (Inl err, s3)
        \<longrightarrow> fst (Container_run e cfg s) = Inr 1)
   \<and> (\<forall>s1 root s2 s3. CGroupManager_create e (name cfg) (memory_mb cfg) (cpu_percent cfg) s = (Inr (), s1)
        \<and> RootFSManager_create e (name cfg) s1 = (Inr root, s2)
        \<and> CGroupManager_add_process e (name cfg) (getpid e) s2 = (Inr (), s3)
        \<longrightarrow> fst (Container_run e cfg s) =
             Inr (if has_nul (Spawn (unshare_argv root (command cfg))) then 1
                  else (case spawn e (unshare_argv root (command cfg)) of
                    Exited rc out \<Rightarrow> rc | NotFound \<Rightarrow> 1 | Interrupted \<Rightarrow> 130)))"
proof -
  note r = Container_run_result [OF assms]
  note u = Container_cleanup_stdout [OF assms]
  have a: "fst (Container_run e cfg s) = Inr 1"
    if "CGroupManager_create e (name cfg) (memory_mb cfg) (cpu_percent cfg) s = (Inl err, s1)" for err s1
  proof -
    from CGroupManager_create_raises [OF that] have "err \<noteq> KeyboardInterrupt"
      by (simp add: is_Exception_def)
    with that show ?thesis
      by (simp add: r Container_try_def andThen_def exit_code_def is_Exception_def)
  qed
  have b: "fst (Container_run e cfg s) = Inr (if err = KeyboardInterrupt then 130 else 1)"
    if "CGroupManager_create e (name cfg) (memory_mb cfg) (cpu_percent cfg) s = (Inr (), s1)"
      "RootFSManager_create e (name cfg) s1 = (Inl err, s2)" for s1 err s2
    using that by (simp add: r Container_try_def andThen_def exit_code_def is_Exception_def)
  have c: "fst (Container_run e cfg s) = Inr 1"
    if "CGroupManager_create e (name cfg) (memory_mb cfg) (cpu_percent cfg) s = (Inr (), s1)"
      "RootFSManager_create e (name cfg) s1 = (Inr root, s2)"
      "CGroupManager_add_process e (name cfg) (getpid e) s2 = (Inl err, s3)" for s1 root s2 err s3
  proof -
    from add_process_raises [OF that(3)] have "err \<noteq> KeyboardInterrupt"
      by (simp add: is_Exception_def)
    with that u show ?thesis
      by (simp add: r Container_try_def andThen_def exit_code_def is_Exception_def)
  qed
  have d: "fst (Container_run e cfg s) =
             Inr (if has_nul (Spawn (unshare_argv root (command cfg))) then 1
                  else (case spawn e (unshare_argv root (command cfg)) of
                    Exited rc out \<Rightarrow> rc | NotFound \<Rightarrow> 1 | Interrupted \<Rightarrow> 130))"
    if "CGroupManager_create e (name cfg) (memory_mb cfg) (cpu_percent cfg) s = (Inr (), s1)"
      "RootFSManager_create e (name cfg) s1 = (Inr root, s2)"
      "CGroupManager_add_process e (name cfg) (getpid e) s2 = (Inr (), s3)" for s1 root s2 s3
    using that u
    by (simp add: r Container_try_def andThen_def exit_code_def is_Exception_def subprocess_run_def
             del: has_nul_simps split: proc_result.splits)
  show ?thesis using a b c d by blast
qed

lemma sample_finally:
  "fst (Container_cleanup (sample_host None l) demo_config
          (snd (Container_try (sample_host None l) demo_config host_state))) = Inr ()"
  by (simp add: sample_try sample_cleanup_result)

lemma run_exit_code_sample:
  "fst (Container_run (sample_host None (Exited 137 [])) demo_config host_state) = Inr 137
   \<and> fst (Container_run (sample_host None Interrupted) demo_config host_state) = Inr 130
   \<and> fst (Container_run (sample_host None NotFound) demo_config host_state) = Inr 1"
proof -
  have "fst (Container_run (sample_host None l) demo_config host_state) =
          Inr (case l of Exited rc out \<Rightarrow> rc | NotFound \<Rightarrow> 1 | Interrupted \<Rightarrow> 130)" for l
    using Container_run_result [OF sample_finally [of l]]
    by (cases l) (simp_all add: sample_try exit_code_def is_Exception_def)
  from this [of "Exited 137 []"] this [of Interrupted] this [of NotFound]
  show ?thesis by simp
qed






lemma RootFSManager_cleanup_noop:
  assumes "rootfs s = None \<or> (\<exists>root. rootfs s = Some root \<and> \<not> path_exists (fs s) root)"
  shows "RootFSManager_cleanup e s = (Inr (), enter ''RootFSManager.cleanup'' s)"
  using assms by (auto simp: RootFSManager_cleanup_def)

lemma RootFSManager_cleanup_refused:
  assumes "rootfs s = Some root" "fs s root = Some Dir" "fault e (Rmtree root) = Some err"
    and "\<not> has_nul (Rmtree root)"
  shows "fst (RootFSManager_cleanup e s) = Inl (OSError err)"
proof -
  have "resolve (fs s) root = Some root"
    using assms(2) by (intro resolve_not_link) simp
  then have "path_exists (fs s) root" using assms(2) by (simp add: path_exists_def)
  then show ?thesis
    using assms by (simp add: RootFSManager_cleanup_def rmtree_def rmtree_eff_def syscall_def enter_def)
qed

lemma Container_run_cleanup_raises:
  assumes "fst (Container_cleanup e cfg (snd (Container_try e cfg s))) = Inl err"
  shows "fst (Container_run e cfg s) = Inl err"
proof (cases "stdout_utf8 e")
  case True
  with assms show ?thesis by (auto simp: Container_run_utf8 split: prod.splits sum.splits)
next
  case False
  with assms show ?thesis by (simp add: Container_run_ascii Container_cleanup_ascii)
qed

text \<open>
  Claim C2 fails when the \<^verbatim>\<open>finally\<close> clause raises: the exception of
  \<^verbatim>\<open>_cleanup\<close> replaces the value that \<^verbatim>\<open>run\<close> was about to return. On the sample
  host, with the host refusing the removal of the temporary root (\<^verbatim>\<open>EPERM\<close>): the
  launched command runs to its end with exit status 137, and \<^verbatim>\<open>Container.run\<close> raises
  \<^verbatim>\<open>PermissionError\<close> instead of returning 137; Ctrl-C arrives while waiting, and
  \<^verbatim>\<open>Container.run\<close> raises \<^verbatim>\<open>PermissionError\<close> instead of returning 130.
\<close>

theorem exit_status_lost_when_cleanup_raises:
  "fst (Container_try (sample_host (Some EPERM) (Exited 137 [])) demo_config host_state) = Inr 137
   \<and> fst (Container_run (sample_host (Some EPERM) (Exited 137 [])) demo_config host_state)
       = Inl (OSError EPERM)
   \<and> fst (Container_try (sample_host (Some EPERM) Interrupted) demo_config host_state)
       = Inl KeyboardInterrupt
   \<and> fst (Container_run (sample_host (Some EPERM) Interrupted) demo_config host_state)
       = Inl (OSError EPERM)"
proof -
  have "fst (Container_cleanup (sample_host (Some EPERM) l) demo_config
               (snd (Container_try (sample_host (Some EPERM) l) demo_config host_state)))
          = Inl (OSError EPERM)" for l
    by (simp add: sample_try sample_cleanup_result)
  from Container_run_cleanup_raises [OF this]
  show ?thesis by (simp add: sample_try)
qed

text \<open>
  Claim C8 fails for \<^verbatim>\<open>RootFSManager.cleanup\<close>: it calls \<^verbatim>\<open>shutil.rmtree\<close> with no
  handler. On the sample host, with the launched command exiting 0 and the host then
  refusing the removal of the tree (\<^verbatim>\<open>EPERM\<close>), the cleanup raises
  \<^verbatim>\<open>PermissionError\<close> and \<^verbatim>\<open>Container.run\<close> ends in that exception instead of
  returning 0. (\<open>CGroupManager_cleanup_swallows\<close> and \<open>RootFSManager_cleanup_noop\<close> are
  the parts of the claim that hold.)
\<close>

theorem rootfs_cleanup_raises:
  "fst (RootFSManager_cleanup (sample_host (Some EPERM) (Exited 0 []))
          (snd (Container_try (sample_host (Some EPERM) (Exited 0 [])) demo_config host_state)))
     = Inl (OSError EPERM)
   \<and> fst (Container_run (sample_host (Some EPERM) (Exited 0 [])) demo_config host_state)
     = Inl (OSError EPERM)"
proof -
  let ?e = "sample_host (Some EPERM) (Exited 0 [])"
  have a: "fst (RootFSManager_cleanup ?e (snd (Container_try ?e demo_config host_state))) = Inl (OSError EPERM)"
    by (rule RootFSManager_cleanup_refused [of _ demo_root]) (simp_all add: sample_try enrolled_fs_root)
  have "fst (Container_cleanup ?e demo_config (snd (Container_try ?e demo_config host_state))) = Inl (OSError EPERM)"
    by (simp add: sample_try sample_cleanup_result)
  from Container_run_cleanup_raises [OF this] a show ?thesis by simp
qed

lemma no_ldd_create_group:
  "CGroupManager_create no_ldd_host ''demo'' 50 25 bash_host_state =
     (Inr (), \<lparr>fs = bash_group_fs, trace = group_events, rootfs = None\<rparr>)"
  by (simp add: eval_defs no_ldd_host_def bash_host_state_def host_fs_def bash_group_fs_def group_events_def)

lemma no_ldd_create_rootfs:
  "RootFSManager_create no_ldd_host ''demo'' \<lparr>fs = bash_group_fs, trace = group_events, rootfs = None\<rparr> =
     (Inl (OSError ENOENT),
      \<lparr>fs = no_ldd_fs, trace = group_events @ rootfs_events @ bash_events, rootfs = Some demo_root\<rparr>)"
  by (simp add: eval_defs no_ldd_host_def bash_group_fs_def host_fs_def no_ldd_fs_def
        rootfs_events_def bash_events_def demo_root_def)

lemma no_ldd_try:
  "Container_try no_ldd_host demo_config bash_host_state =
     (Inl (OSError ENOENT),
      \<lparr>fs = no_ldd_fs, trace = group_events @ rootfs_events @ bash_events, rootfs = Some demo_root\<rparr>)"
  by (simp add: Container_try_def andThen_def demo_config_def no_ldd_create_group no_ldd_create_rootfs)

lemma no_ldd_fs_group: "no_ldd_fs [''sys'', ''fs'', ''cgroup'', ''demo''] = Some Dir"
  by (simp add: no_ldd_fs_def bash_group_fs_def)

lemma no_ldd_fs_root: "no_ldd_fs demo_root = Some Dir"
  by (simp add: no_ldd_fs_def demo_root_def)

lemma no_ldd_host_sel [simp]:
  "fault no_ldd_host c = None"
  "stdout_utf8 no_ldd_host"
  by (simp_all add: no_ldd_host_def)

lemma no_ldd_cleanup:
  "fst (Container_cleanup no_ldd_host demo_config \<lparr>fs = no_ldd_fs, trace = t, rootfs = Some demo_root\<rparr>) = Inr ()"
  "trace (snd (Container_cleanup no_ldd_host demo_config \<lparr>fs = no_ldd_fs, trace = t, rootfs = Some demo_root\<rparr>))
     = t @ [Enter ''CGroupManager.cleanup'', Sys (Rmdir [''sys'', ''fs'', ''cgroup'', ''demo'']) True,
            Enter ''RootFSManager.cleanup'', Sys (Rmtree demo_root) True]"
  by (simp_all add: group_not_above_root Container_cleanup_def CGroupManager_cleanup_def
        RootFSManager_cleanup_def andThen_def enter_def Path_rmdir_def rmdir_eff_def rmtree_def
        rmtree_eff_def syscall_def demo_config_def CGroupManager_path_def Path_def
        no_ldd_fs_group no_ldd_fs_root path_exists_def resolve_def)

text \<open>
  Claim C7 fails where the query tool is not installed. \<^verbatim>\<open>_copy_bash\<close> catches
  \<^verbatim>\<open>subprocess.CalledProcessError\<close> only, which \<^verbatim>\<open>subprocess.run(..., check=False)\<close>
  never raises; a missing \<^verbatim>\<open>ldd\<close> is a \<^verbatim>\<open>FileNotFoundError\<close>. On a host that has
  \<^verbatim>\<open>/usr/bin/bash\<close> and busybox but no \<^verbatim>\<open>ldd\<close>, \<^verbatim>\<open>RootFSManager.create\<close> raises
  that error after the failed spawn, the \<^verbatim>\<open>try\<close> block ends in it, and
  \<^verbatim>\<open>Container.run\<close> returns 1 without ever launching the command.
\<close>

theorem ldd_missing_aborts_run:
  "fst (RootFSManager_create no_ldd_host ''demo''
          (snd (CGroupManager_create no_ldd_host ''demo'' 50 25 bash_host_state)))
     = Inl (OSError ENOENT)
   \<and> fst (Container_try no_ldd_host demo_config bash_host_state) = Inl (OSError ENOENT)
   \<and> fst (Container_run no_ldd_host demo_config bash_host_state) = Inr 1
   \<and> trace (snd (Container_run no_ldd_host demo_config bash_host_state)) =
       group_events @ rootfs_events @
       [Sys (Copy2 [''usr'', ''bin'', ''bash''] [''tmp'', ''container_demo_k3x9_q0a'', ''bin'', ''bash'']) True,
        Sys (Chmod [''tmp'', ''container_demo_k3x9_q0a'', ''bin'', ''bash''] 493) True,
        Sys (Spawn [''ldd'', ''/usr/bin/bash'']) False,
        Enter ''CGroupManager.cleanup'', Sys (Rmdir [''sys'', ''fs'', ''cgroup'', ''demo'']) True,
        Enter ''RootFSManager.cleanup'', Sys (Rmtree demo_root) True]"
proof -
  have a: "fst (RootFSManager_create no_ldd_host ''demo''
          (snd (CGroupManager_create no_ldd_host ''demo'' 50 25 bash_host_state))) = Inl (OSError ENOENT)"
    by (simp add: no_ldd_create_group no_ldd_create_rootfs)
  have b: "fst (Container_try no_ldd_host demo_config bash_host_state) = Inl (OSError ENOENT)"
    by (simp add: no_ldd_try)
  have "fst (Container_cleanup no_ldd_host demo_config
          (snd (Container_try no_ldd_host demo_config bash_host_state))) = Inr ()"
    by (simp add: no_ldd_try no_ldd_cleanup)
  from Container_run_result [OF this]
  have c: "fst (Container_run no_ldd_host demo_config bash_host_state) = Inr 1"
    by (simp add: b exit_code_def is_Exception_def)
  have d: "trace (snd (Container_run no_ldd_host demo_config bash_host_state)) =
       group_events @ rootfs_events @ bash_events @
       [Enter ''CGroupManager.cleanup'', Sys (Rmdir [''sys'', ''fs'', ''cgroup'', ''demo'']) True,
        Enter ''RootFSManager.cleanup'', Sys (Rmtree demo_root) True]"
    by (simp add: Container_run_trace no_ldd_try no_ldd_cleanup)
  show ?thesis using a b c d by (simp add: bash_events_def)
qed

lemma link_path:
  assumes "cmd \<in> set commands"
  shows "joinpath (joinpath root ''bin'') cmd = root @ [''bin'', cmd]"
  using assms by (auto simp: commands_def joinpath_def Path_def)

lemma busybox_path: "joinpath root ''bin/busybox'' = root @ [''bin'', ''busybox'']"
  by (simp add: joinpath_def Path_def)

lemma link_target_path: "joinpath (butlast (root @ [''bin'', cmd])) ''busybox'' = root @ [''bin'', ''busybox'']"
  by (simp add: joinpath_def Path_def butlast_append)

lemma path_exists_entry:
  assumes "path_exists f p"
  shows "f p \<noteq> None"
proof
  assume n: "f p = None"
  then have "resolve f p = Some p" by (intro resolve_not_link) simp
  with assms n show False by (simp add: path_exists_def)
qed

lemma follow_mono:
  assumes sub: "\<forall>q. f q \<noteq> None \<longrightarrow> f' q = f q"
  shows "follow n f p = Some q \<Longrightarrow> f q \<noteq> None \<Longrightarrow> follow n f' p = Some q"
proof (induction n arbitrary: p)
  case 0
  then show ?case by simp
next
  case (Suc n)
  show ?case
  proof (cases "f p")
    case None
    with Suc.prems show ?thesis by simp
  next
    case (Some nd)
    with sub have f': "f' p = Some nd" by simp
    show ?thesis
    proof (cases nd)
      case (Symlink t)
      with Some Suc.prems have "follow n f (joinpath (butlast p) t) = Some q" by simp
      from Suc.IH [OF this Suc.prems(2)] Symlink f' show ?thesis by simp
    next
      case Dir
      with Some f' Suc.prems show ?thesis by simp
    next
      case (File d)
      with Some f' Suc.prems show ?thesis by simp
    qed
  qed
qed

lemma path_exists_mono:
  assumes "\<forall>q. f q \<noteq> None \<longrightarrow> f' q = f q" "path_exists f p"
  shows "path_exists f' p"
proof -
  from assms(2) obtain q where q: "resolve f p = Some q" "f q \<noteq> None"
    by (auto simp: path_exists_def split: option.splits)
  from follow_mono [OF assms(1), of 40 p q] q have "resolve f' p = Some q" by (simp add: resolve_def)
  moreover from assms(1) q(2) have "f' q \<noteq> None" by simp
  ultimately show ?thesis by (simp add: path_exists_def)
qed

lemma symlink_to_ok:
  assumes "symlink_to e p t s = (Inr u, s')"
  shows "fs s p = None \<and> s' = s\<lparr>fs := (fs s)(p \<mapsto> Symlink t), trace := trace s @ [Sys (SymlinkTo p t) True]\<rparr>"
proof -
  from syscall_ok [of e "SymlinkTo p t" "symlink_eff p t" s u s'] assms
  obtain f' where "symlink_eff p t (fs s) = Inr f'"
    "s' = s\<lparr>fs := f', trace := trace s @ [Sys (SymlinkTo p t) True]\<rparr>"
    by (auto simp: symlink_to_def)
  then show ?thesis by (auto simp: symlink_eff_def split: if_splits option.splits)
qed

lemma link_command_ok:
  assumes "link_command e root cmd s = (Inr u, s')"
  shows "(path_exists (fs s) (joinpath (joinpath root ''bin'') cmd) \<and> s' = s)
       \<or> (\<not> path_exists (fs s) (joinpath (joinpath root ''bin'') cmd)
          \<and> fs s (joinpath (joinpath root ''bin'') cmd) = None
          \<and> s' = s\<lparr>fs := (fs s)(joinpath (joinpath root ''bin'') cmd \<mapsto> Symlink ''busybox''),
                    trace := trace s @ [Sys (SymlinkTo (joinpath (joinpath root ''bin'') cmd) ''busybox'') True]\<rparr>)"
proof (cases "path_exists (fs s) (joinpath (joinpath root ''bin'') cmd)")
  case True
  with assms show ?thesis by (simp add: link_command_def)
next
  case False
  with assms have "symlink_to e (joinpath (joinpath root ''bin'') cmd) ''busybox'' s = (Inr u, s')"
    by (simp add: link_command_def)
  from symlink_to_ok [OF this] False show ?thesis by simp
qed

lemma link_commands_Cons:
  "link_commands e root (cmd # cmds) s =
     (case link_command e root cmd s of
        (Inl err, s') \<Rightarrow> (Inl err, s')
      | (Inr u, s') \<Rightarrow> link_commands e root cmds s')"
  unfolding link_commands_def by simp

lemma link_commands_Nil: "link_commands e root [] s = (Inr (), s)"
  by (simp add: link_commands_def)

lemma link_commands_again:
  assumes "\<forall>cmd\<in>set cmds. path_exists (fs s) (joinpath (joinpath root ''bin'') cmd)"
  shows "link_commands e root cmds s = (Inr (), s)"
  using assms
  by (induction cmds) (simp_all add: link_commands_Nil link_commands_Cons link_command_def)

lemma link_commands_ok:
  assumes "link_commands e root cmds s = (Inr (), s')"
    and "set cmds \<subseteq> set commands"
    and "fs s (root @ [''bin'', ''busybox'']) = Some (File d)"
  shows "(\<forall>q. fs s q \<noteq> None \<longrightarrow> fs s' q = fs s q)
       \<and> (\<forall>q. fs s' q \<noteq> fs s q \<longrightarrow> fs s' q = Some (Symlink ''busybox''))
       \<and> (\<forall>cmd\<in>set cmds. path_exists (fs s') (joinpath (joinpath root ''bin'') cmd))"
  using assms
proof (induction cmds arbitrary: s)
  case Nil
  then show ?case by (simp add: link_commands_Nil)
next
  case (Cons cmd cmds)
  let ?p = "joinpath (joinpath root ''bin'') cmd"
  let ?bb = "root @ [''bin'', ''busybox'']"
  obtain r1 s1 where l1: "link_command e root cmd s = (r1, s1)"
    by (cases "link_command e root cmd s")
  with Cons.prems(1) have r1: "r1 = Inr ()" and rest: "link_commands e root cmds s1 = (Inr (), s')"
    by (auto simp: link_commands_Cons split: sum.splits)
  have cmd: "cmd \<in> set commands" using Cons.prems(2) by simp
  from link_command_ok [of e root cmd s "()" s1] l1 r1
  have step: "(path_exists (fs s) ?p \<and> s1 = s)
       \<or> (fs s ?p = None \<and> fs s1 = (fs s)(?p \<mapsto> Symlink ''busybox''))"
    by auto
  have keep1: "\<forall>q. fs s q \<noteq> None \<longrightarrow> fs s1 q = fs s q"
    using step by auto
  have new1: "\<forall>q. fs s1 q \<noteq> fs s q \<longrightarrow> fs s1 q = Some (Symlink ''busybox'')"
    using step by (auto split: if_splits)
  have bb1: "fs s1 ?bb = Some (File d)" using keep1 Cons.prems(3) by simp
  have ex1: "path_exists (fs s1) ?p"
  proof -
    from step show ?thesis
    proof
      assume "path_exists (fs s) ?p \<and> s1 = s"
      then show ?thesis by simp
    next
      assume b: "fs s ?p = None \<and> fs s1 = (fs s)(?p \<mapsto> Symlink ''busybox'')"
      have p: "?p = root @ [''bin'', cmd]" by (rule link_path [OF cmd])
      from b have "fs s1 ?p = Some (Symlink ''busybox'')" by simp
      then show ?thesis using bb1
        by (simp add: path_exists_def resolve_def p link_target_path)
    qed
  qed
  from Cons.IH [OF rest _ bb1] Cons.prems(2)
  have ih: "\<forall>q. fs s1 q \<noteq> None \<longrightarrow> fs s' q = fs s1 q"
    "\<forall>q. fs s' q \<noteq> fs s1 q \<longrightarrow> fs s' q = Some (Symlink ''busybox'')"
    "\<forall>cmd\<in>set cmds. path_exists (fs s') (joinpath (joinpath root ''bin'') cmd)"
    by auto
  have a: "\<forall>q. fs s q \<noteq> None \<longrightarrow> fs s' q = fs s q"
    using keep1 ih(1) by auto
  have b: "\<forall>q. fs s' q \<noteq> fs s q \<longrightarrow> fs s' q = Some (Symlink ''busybox'')"
  proof (intro allI impI)
    fix q assume "fs s' q \<noteq> fs s q"
    show "fs s' q = Some (Symlink ''busybox'')"
    proof (cases "fs s' q = fs s1 q")
      case False
      with ih(2) show ?thesis by simp
    next
      case True
      with \<open>fs s' q \<noteq> fs s q\<close> new1 show ?thesis by simp
    qed
  qed
  have c: "path_exists (fs s') ?p" by (rule path_exists_mono [OF ih(1) ex1])
  show ?case using a b c ih(3) by simp
qed

text \<open>
  Claim C9. When the loop over the fixed command names completes, with the busybox
  binary a regular file in \<^verbatim>\<open>bin/\<close>: for every command name, an entry that was at
  \<^verbatim>\<open>bin/<command>\<close> before is unchanged, and where there was none there is now a
  symbolic link to \<^verbatim>\<open>busybox\<close>; and running the loop again changes nothing: it
  completes in the same state (no entry touched, no call made).
\<close>

theorem link_commands_no_overwrite_idempotent:
  assumes "fs s (joinpath root ''bin/busybox'') = Some (File d)"
    and "link_commands e root commands s = (Inr (), s')"
  shows "(\<forall>cmd\<in>set commands.
            (fs s (joinpath (joinpath root ''bin'') cmd) \<noteq> None \<longrightarrow>
               fs s' (joinpath (joinpath root ''bin'') cmd) = fs s (joinpath (joinpath root ''bin'') cmd))
          \<and> (fs s (joinpath (joinpath root ''bin'') cmd) = None \<longrightarrow>
               fs s' (joinpath (joinpath root ''bin'') cmd) = Some (Symlink ''busybox'')))
       \<and> link_commands e root commands s' = (Inr (), s')"
proof -
  from assms(1) have bb: "fs s (root @ [''bin'', ''busybox'']) = Some (File d)"
    by (simp add: busybox_path)
  from link_commands_ok [OF assms(2) _ bb]
  have keep: "\<forall>q. fs s q \<noteq> None \<longrightarrow> fs s' q = fs s q"
    and new: "\<forall>q. fs s' q \<noteq> fs s q \<longrightarrow> fs s' q = Some (Symlink ''busybox'')"
    and ex: "\<forall>cmd\<in>set commands. path_exists (fs s') (joinpath (joinpath root ''bin'') cmd)"
    by auto
  have "fs s' (joinpath (joinpath root ''bin'') cmd) = Some (Symlink ''busybox'')"
    if "cmd \<in> set commands" "fs s (joinpath (joinpath root ''bin'') cmd) = None" for cmd
  proof -
    from ex that(1) have "fs s' (joinpath (joinpath root ''bin'') cmd) \<noteq> None"
      by (intro path_exists_entry) simp
    with that(2) new show ?thesis by auto
  qed
  moreover have "link_commands e root commands s' = (Inr (), s')"
    by (rule link_commands_again [OF ex])
  ultimately show ?thesis using keep by simp
qed

lemma link_commands_append:
  "link_commands e root (pre @ rest) s =
     (case link_commands e root pre s of
        (Inl err, s1) \<Rightarrow> (Inl err, s1)
      | (Inr u, s1) \<Rightarrow> link_commands e root rest s1)"
  by (induction pre arbitrary: s)
     (auto simp: link_commands_Nil link_commands_Cons split: prod.splits sum.splits)

lemma link_command_dangling:
  assumes "fs s (joinpath (joinpath root ''bin'') cmd) = Some (Symlink t)"
    and "\<not> path_exists (fs s) (joinpath (joinpath root ''bin'') cmd)"
    and "\<not> has_nul (SymlinkTo (joinpath (joinpath root ''bin'') cmd) ''busybox'')"
  shows "link_command e root cmd s =
           (Inl (OSError EEXIST),
            s\<lparr>trace := trace s @ [Sys (SymlinkTo (joinpath (joinpath root ''bin'') cmd) ''busybox'') False]\<rparr>)"
  using assms by (simp add: link_command_def symlink_to_def syscall_clean symlink_eff_def del: has_nul_simps)

text \<open>
  Claim C10. \<^verbatim>\<open>_setup_busybox\<close> has found and copied busybox and linked the commands
  before \<^verbatim>\<open>cmd\<close>; at \<^verbatim>\<open>bin/cmd\<close> there is a symbolic link that does not resolve.
  \<^verbatim>\<open>link.exists()\<close> follows the link and answers False, \<^verbatim>\<open>symlink_to\<close> then raises
  \<^verbatim>\<open>FileExistsError\<close>, and \<^verbatim>\<open>_setup_busybox\<close> ends in that exception: the entry is
  still the dangling link, the remaining commands are not linked, and provisioning is
  aborted rather than the entry being skipped.
\<close>

theorem dangling_link_aborts_setup:
  assumes "find (os_path_exists s) busybox_paths = Some src"
    and "rootfs s = Some root"
    and "copy2 e (Path src) (joinpath root ''bin/busybox'') s = (Inr (), s1)"
    and "Path_chmod e (joinpath root ''bin/busybox'') 493 s1 = (Inr (), s2)"
    and "commands = pre @ cmd # post"
    and "link_commands e root pre s2 = (Inr (), s3)"
    and "fs s3 (joinpath (joinpath root ''bin'') cmd) = Some (Symlink t)"
    and "\<not> path_exists (fs s3) (joinpath (joinpath root ''bin'') cmd)"
  shows "RootFSManager_setup_busybox e s =
           (Inl (OSError EEXIST),
            s3\<lparr>trace := trace s3 @ [Sys (SymlinkTo (joinpath (joinpath root ''bin'') cmd) ''busybox'') False]\<rparr>)"
proof -
  \<comment> \<open>the copy completed, so the root has no null byte; nor has a command name\<close>
  have cmd: "cmd \<in> set commands" by (simp add: assms(5))
  from assms(3) have "\<not> has_nul (Copy2 (Path src) (joinpath root ''bin/busybox''))"
    unfolding copy2_def by (rule syscall_ok_text)
  then have root: "\<not> list_ex (\<lambda>w. CHR 0x00 \<in> set w) root" by (simp add: busybox_path)
  have "\<forall>c\<in>set commands. CHR 0x00 \<notin> set c" by (simp add: commands_def)
  with cmd have "CHR 0x00 \<notin> set cmd" by blast
  with root have n: "\<not> has_nul (SymlinkTo (joinpath (joinpath root ''bin'') cmd) ''busybox'')"
    by (simp add: link_path [OF cmd])
  have "link_commands e root commands s2 =
          (Inl (OSError EEXIST),
            s3\<lparr>trace := trace s3 @ [Sys (SymlinkTo (joinpath (joinpath root ''bin'') cmd) ''busybox'') False]\<rparr>)"
    using assms(6) link_command_dangling [OF assms(7,8) n, of e]
    by (simp add: assms(5) link_commands_append link_commands_Cons del: has_nul_simps)
  then show ?thesis
    using assms(1-4) by (simp add: RootFSManager_setup_busybox_def andThen_def)
qed

lemmas link_defs = link_commands_def link_command_def symlink_to_def symlink_eff_def syscall_def
  parent_error_def is_dir_def path_exists_def resolve_def joinpath_def Path_def commands_def
  host_env_def demo_root_def

theorem link_commands_no_overwrite_idempotent_witness:
  "fst (link_commands host_env demo_root commands preset_state) = Inr ()
   \<and> fs (snd (link_commands host_env demo_root commands preset_state))
        [''tmp'', ''container_demo_k3x9_q0a'', ''bin'', ''ls''] = Some (File ''#!/bin/sh'')
   \<and> fs (snd (link_commands host_env demo_root commands preset_state))
        [''tmp'', ''container_demo_k3x9_q0a'', ''bin'', ''sh''] = Some (Symlink ''busybox'')
   \<and> link_commands host_env demo_root commands (snd (link_commands host_env demo_root commands preset_state))
       = (Inr (), snd (link_commands host_env demo_root commands preset_state))"
proof -
  let ?r = "link_commands host_env demo_root commands preset_state"
  have ok: "fst ?r = Inr ()"
    by (simp add: link_defs preset_state_def)
  then have h: "?r = (Inr (), snd ?r)" by (metis prod.collapse)
  have bb: "fs preset_state (joinpath demo_root ''bin/busybox'') = Some (File ''ELF-busybox'')"
    by (simp add: preset_state_def joinpath_def Path_def demo_root_def)
  have ls: "joinpath (joinpath demo_root ''bin'') ''ls'' = [''tmp'', ''container_demo_k3x9_q0a'', ''bin'', ''ls'']"
    and sh: "joinpath (joinpath demo_root ''bin'') ''sh'' = [''tmp'', ''container_demo_k3x9_q0a'', ''bin'', ''sh'']"
    by (simp_all add: joinpath_def Path_def demo_root_def)
  have m: "''ls'' \<in> set commands" "''sh'' \<in> set commands" by (simp_all add: commands_def)
  have f1: "fs preset_state [''tmp'', ''container_demo_k3x9_q0a'', ''bin'', ''ls''] = Some (File ''#!/bin/sh'')"
    and f2: "fs preset_state [''tmp'', ''container_demo_k3x9_q0a'', ''bin'', ''sh''] = None"
    by (simp_all add: preset_state_def)
  note t = link_commands_no_overwrite_idempotent [OF bb h]
  from t have every: "\<forall>cmd\<in>set commands.
            (fs preset_state (joinpath (joinpath demo_root ''bin'') cmd) \<noteq> None \<longrightarrow>
               fs (snd ?r) (joinpath (joinpath demo_root ''bin'') cmd)
                 = fs preset_state (joinpath (joinpath demo_root ''bin'') cmd))
          \<and> (fs preset_state (joinpath (joinpath demo_root ''bin'') cmd) = None \<longrightarrow>
               fs (snd ?r) (joinpath (joinpath demo_root ''bin'') cmd) = Some (Symlink ''busybox''))"
    and again: "link_commands host_env demo_root commands (snd ?r) = (Inr (), snd ?r)"
    by blast+
  from bspec [OF every m(1)] have k: "fs (snd ?r) [''tmp'', ''container_demo_k3x9_q0a'', ''bin'', ''ls'']
       = Some (File ''#!/bin/sh'')"
    unfolding ls using f1 by simp
  from bspec [OF every m(2)] have n: "fs (snd ?r) [''tmp'', ''container_demo_k3x9_q0a'', ''bin'', ''sh'']
       = Some (Symlink ''busybox'')"
    unfolding sh using f2 by simp
  show ?thesis using ok k n again by simp
qed

theorem dangling_link_aborts_setup_witness:
  "fst (RootFSManager_setup_busybox host_env dangling_state) = Inl (OSError EEXIST)
   \<and> fs (snd (RootFSManager_setup_busybox host_env dangling_state))
        [''tmp'', ''container_demo_k3x9_q0a'', ''bin'', ''ls''] = Some (Symlink ''/opt/gone'')
   \<and> fs (snd (RootFSManager_setup_busybox host_env dangling_state))
        [''tmp'', ''container_demo_k3x9_q0a'', ''bin'', ''cat''] = None"
proof -
  let ?bb = "joinpath demo_root ''bin/busybox''"
  let ?r1 = "copy2 host_env (Path ''/usr/bin/busybox'') ?bb dangling_state"
  let ?r2 = "Path_chmod host_env ?bb 493 (snd ?r1)"
  let ?r3 = "link_commands host_env demo_root [''sh''] (snd ?r2)"
  let ?ls = "joinpath (joinpath demo_root ''bin'') ''ls''"
  note defs = link_defs dangling_state_def host_fs_def copy2_def copy2_eff_def write_eff_def
    Path_chmod_def chmod_eff_def
  have a1: "find (os_path_exists dangling_state) busybox_paths = Some ''/usr/bin/busybox''"
    by (simp add: busybox_paths_def os_path_exists_def defs)
  have a2: "rootfs dangling_state = Some demo_root"
    by (simp add: dangling_state_def demo_root_def)
  have "fst ?r1 = Inr ()" by (simp add: defs)
  then have a3: "?r1 = (Inr (), snd ?r1)" by (metis prod.collapse)
  have "fst ?r2 = Inr ()" by (simp add: defs)
  then have a4: "?r2 = (Inr (), snd ?r2)" by (metis prod.collapse)
  have a5: "commands = [''sh''] @ ''ls'' # [''cat'', ''echo'', ''ps'', ''sleep'', ''mkdir'', ''rm'', ''cp'', ''mv'']"
    by (simp add: commands_def)
  have "fst ?r3 = Inr ()" by (simp add: defs)
  then have a6: "?r3 = (Inr (), snd ?r3)" by (metis prod.collapse)
  have a7: "fs (snd ?r3) ?ls = Some (Symlink ''/opt/gone'')" by (simp add: defs)
  have a8: "\<not> path_exists (fs (snd ?r3)) ?ls" by (simp add: defs)
  have c: "fs (snd ?r3) [''tmp'', ''container_demo_k3x9_q0a'', ''bin'', ''cat''] = None"
    by (simp add: defs)
  have ls: "?ls = [''tmp'', ''container_demo_k3x9_q0a'', ''bin'', ''ls'']"
    by (simp add: joinpath_def Path_def demo_root_def)
  from dangling_link_aborts_setup [OF a1 a2 a3 a4 a5 a6 a7 a8] a7 c
  show ?thesis unfolding ls by simp
qed

lemma syscall_keeps:
  assumes "syscall e c eff s = (r, s')"
    and eff: "\<forall>f'. eff (fs s) = Inr f' \<longrightarrow> (\<forall>x. fs s x \<noteq> None \<longrightarrow> f' x = fs s x)"
  shows "(\<forall>x. fs s x \<noteq> None \<longrightarrow> fs s' x = fs s x) \<and> rootfs s' = rootfs s"
proof -
  from syscall_cases [OF assms(1)] consider
    (changed) f' where "eff (fs s) = Inr f'" "s' = s\<lparr>fs := f', trace := trace s @ [Sys c True]\<rparr>"
    | (refused) "s' = s\<lparr>trace := trace s @ [Sys c False]\<rparr>"
    by blast
  then show ?thesis
  proof cases
    case changed
    with eff show ?thesis by simp
  next
    case refused
    then show ?thesis by simp
  qed
qed

lemma os_mkdir_keeps:
  assumes "os_mkdir e p s = (r, s')"
  shows "(\<forall>x. fs s x \<noteq> None \<longrightarrow> fs s' x = fs s x) \<and> rootfs s' = rootfs s"
  using assms unfolding os_mkdir_def
  by (rule syscall_keeps) (auto simp: mkdir_eff_def split: if_splits option.splits)

lemma os_mkdir_made:
  assumes "os_mkdir e p s = (Inr u, s')"
  shows "fs s' p = Some Dir"
  using syscall_ok [of e "Mkdir p" "mkdir_eff p" s u s'] assms
  by (auto simp: os_mkdir_def mkdir_eff_def split: if_splits option.splits)

lemma Path_mkdir_keeps:
  "(\<forall>x. fs s x \<noteq> None \<longrightarrow> fs (snd (Path_mkdir e parents ok p s)) x = fs s x)
   \<and> rootfs (snd (Path_mkdir e parents ok p s)) = rootfs s"
proof (induction e parents ok p s rule: Path_mkdir.induct)
  case (1 e parents ok p s)
  obtain r s1 where m: "os_mkdir e p s = (r, s1)" by (cases "os_mkdir e p s")
  note k1 = os_mkdir_keeps [OF m]
  show ?case
  proof (cases r)
    case (Inr u)
    with m k1 show ?thesis by (subst Path_mkdir.simps, subst (2) Path_mkdir.simps) auto
  next
    case (Inl err)
    show ?thesis
    proof (cases "err = OSError ENOENT \<and> parents \<and> p \<noteq> []")
      case False
      with m k1 Inl show ?thesis by (subst Path_mkdir.simps, subst (2) Path_mkdir.simps) auto
    next
      case True
      obtain r2 s2 where m2: "Path_mkdir e True True (butlast p) s1 = (r2, s2)"
        by (cases "Path_mkdir e True True (butlast p) s1")
      have "(\<forall>x. fs s1 x \<noteq> None \<longrightarrow> fs (snd (Path_mkdir e True True (butlast p) s1)) x = fs s1 x)
             \<and> rootfs (snd (Path_mkdir e True True (butlast p) s1)) = rootfs s1"
        using "1.IH"(1) [of r s1 err] m Inl True by simp
      with m2 have k2: "\<forall>x. fs s1 x \<noteq> None \<longrightarrow> fs s2 x = fs s1 x" "rootfs s2 = rootfs s1" by auto
      show ?thesis
      proof (cases r2)
        case (Inl err2)
        with m m2 k1 k2 True \<open>r = Inl err\<close> show ?thesis
          by (subst Path_mkdir.simps, subst (2) Path_mkdir.simps) auto
      next
        case (Inr u)
        have k3: "(\<forall>x. fs s2 x \<noteq> None \<longrightarrow> fs (snd (Path_mkdir e False ok p s2)) x = fs s2 x)
             \<and> rootfs (snd (Path_mkdir e False ok p s2)) = rootfs s2"
          using "1.IH"(2) [of r s1 err r2 s2 u] m \<open>r = Inl err\<close> True m2 Inr by simp
        have "Path_mkdir e parents ok p s = Path_mkdir e False ok p s2"
          using m m2 True \<open>r = Inl err\<close> Inr by (subst Path_mkdir.simps) simp
        with k1 k2 k3 show ?thesis by auto
      qed
    qed
  qed
qed

lemma for_each_keeps:
  assumes "\<And>x s. (\<forall>q. fs s q \<noteq> None \<longrightarrow> fs (snd (body x s)) q = fs s q) \<and> rootfs (snd (body x s)) = rootfs s"
  shows "(\<forall>q. fs s q \<noteq> None \<longrightarrow> fs (snd (for_each body xs s)) q = fs s q)
       \<and> rootfs (snd (for_each body xs s)) = rootfs s"
proof (induction xs arbitrary: s)
  case Nil
  show ?case by simp
next
  case (Cons x xs)
  obtain r s1 where b: "body x s = (r, s1)" by (cases "body x s")
  from assms [of s x] b have k1: "\<forall>q. fs s q \<noteq> None \<longrightarrow> fs s1 q = fs s q" "rootfs s1 = rootfs s" by auto
  show ?case
  proof (cases r)
    case (Inl err)
    with b k1 show ?thesis by simp
  next
    case (Inr u)
    with b k1 Cons [of s1] show ?thesis by auto
  qed
qed

lemma os_mkdir_text:
  assumes "os_mkdir e p s = (Inr u, s')"
  shows "\<not> has_nul (Mkdir p)"
  using assms unfolding os_mkdir_def by (rule syscall_ok_text)

lemma mkdtemp_names_text:
  assumes "mkdtemp_names e pre ns s = (Inr t, s')"
  shows "\<not> has_nul (Mkdir (Path t))"
  using assms
proof (induction ns arbitrary: s)
  case Nil
  then show ?case by simp
next
  case (Cons n ns)
  let ?p = "Path (tmpdir e @ ''/'' @ pre @ n)"
  obtain r s1 where m: "os_mkdir e ?p s = (r, s1)" by (cases "os_mkdir e ?p s")
  show ?case
  proof (cases r)
    case (Inr u)
    with m Cons.prems have "t = tmpdir e @ ''/'' @ pre @ n" by auto
    with os_mkdir_text [of e ?p s u s1] m Inr show ?thesis by simp
  next
    case (Inl err)
    with m Cons.prems have "mkdtemp_names e pre ns s1 = (Inr t, s')"
      by (auto split: if_splits)
    from Cons.IH [OF this] show ?thesis .
  qed
qed

lemma mkdtemp_names_ok:
  assumes "mkdtemp_names e pre ns s = (Inr t, s')"
  shows "fs s' (Path t) = Some Dir \<and> (\<forall>x. fs s x \<noteq> None \<longrightarrow> fs s' x = fs s x) \<and> rootfs s' = rootfs s"
  using assms
proof (induction ns arbitrary: s)
  case Nil
  then show ?case by simp
next
  case (Cons n ns)
  let ?p = "Path (tmpdir e @ ''/'' @ pre @ n)"
  obtain r s1 where m: "os_mkdir e ?p s = (r, s1)" by (cases "os_mkdir e ?p s")
  note k1 = os_mkdir_keeps [OF m]
  show ?case
  proof (cases r)
    case (Inr u)
    with m Cons.prems have "t = tmpdir e @ ''/'' @ pre @ n" "s' = s1" by auto
    with os_mkdir_made [of e ?p s u s1] m Inr k1 show ?thesis by simp
  next
    case (Inl err)
    with m Cons.prems have "mkdtemp_names e pre ns s1 = (Inr t, s')"
      by (auto split: if_splits)
    from Cons.IH [OF this] k1 show ?thesis by auto
  qed
qed

lemma bare_create_group:
  "CGroupManager_create host_env ''demo'' 50 25 bare_state = (Inr (), bare_group)"
  by (simp add: eval_defs host_env_def bare_state_def bare_fs_def bare_group_def group_events_def)

lemma bare_mkdtemp:
  "mkdtemp host_env ''container_demo_'' (enter ''RootFSManager.create'' bare_group) =
     (Inr ''/tmp/container_demo_k3x9_q0a'', bare_tmp)"
  by (simp add: eval_defs host_env_def bare_fs_def bare_group_def bare_tmp_def)

lemma bare_mkdirs:
  "for_each (\<lambda>d. Path_mkdir host_env True True (joinpath (Path ''/tmp/container_demo_k3x9_q0a'') d))
      skeleton_dirs (bare_tmp\<lparr>rootfs := Some (Path ''/tmp/container_demo_k3x9_q0a'')\<rparr>) =
     (Inr (), bare_skeleton)"
  by (simp add: eval_defs host_env_def bare_fs_def bare_tmp_def bare_skeleton_def)

lemma bare_no_busybox: "\<forall>p\<in>set busybox_paths. \<not> os_path_exists bare_skeleton p"
  by (simp add: busybox_paths_def os_path_exists_def path_exists_def resolve_def Path_def
        bare_skeleton_def bare_fs_def)

lemma is_dir_entry:
  assumes "is_dir f p" "\<forall>t. f p \<noteq> Some (Symlink t)"
  shows "f p = Some Dir"
  using assms resolve_not_link [of f p] by (simp add: is_dir_def)

lemma entry_is_dir:
  assumes "f p = Some Dir"
  shows "is_dir f p" "path_exists f p"
  using assms resolve_not_link [of f p] by (simp_all add: is_dir_def path_exists_def)

lemma Path_mkdir_flat_dir:
  assumes "Path_mkdir e False True p s = (Inr u, s')"
  shows "is_dir (fs s') p"
proof (cases "os_mkdir e p s")
  case (Pair r s1)
  show ?thesis
  proof (cases r)
    case (Inr v)
    with Pair assms have "s' = s1" by (simp add: Path_mkdir_flat)
    with os_mkdir_made [of e p s v s1] Pair Inr show ?thesis by (simp add: entry_is_dir)
  next
    case (Inl x)
    with Pair assms show ?thesis by (auto simp: Path_mkdir_flat split: if_splits)
  qed
qed

lemma Path_mkdir_flat_text:
  assumes "Path_mkdir e False True p s = (Inr u, s')"
  shows "\<not> has_nul (Mkdir p)"
proof (cases "os_mkdir e p s")
  case (Pair r s1)
  show ?thesis
  proof (cases r)
    case (Inr v)
    with Pair os_mkdir_text [of e p s v s1] show ?thesis by simp
  next
    case (Inl x)
    with Pair syscall_err [of e "Mkdir p" "mkdir_eff p" s x s1]
    have "x = ValueError \<and> has_nul (Mkdir p) \<or> is_OSError x \<and> \<not> has_nul (Mkdir p)"
      by (simp add: os_mkdir_def del: has_nul_simps)
    moreover from Pair Inl assms have "is_OSError x"
      by (auto simp: Path_mkdir_flat split: if_splits)
    ultimately show ?thesis by (auto simp: is_OSError_def simp del: has_nul_simps)
  qed
qed

lemma write_text_keeps_dirs:
  assumes "write_text e p d s = (Inr u, s')"
  shows "\<forall>x. fs s x = Some Dir \<longrightarrow> fs s' x = Some Dir"
proof -
  from syscall_ok [of e "WriteText p d" "write_eff p d" s u s'] assms
  obtain f' where "write_eff p d (fs s) = Inr f'"
    "s' = s\<lparr>fs := f', trace := trace s @ [Sys (WriteText p d) True]\<rparr>"
    by (auto simp: write_text_def)
  then show ?thesis by (auto simp: write_eff_def split: option.splits if_splits)
qed

lemma group_is_dir_after_create:
  assumes "CGroupManager_create e nm mem cpu s = (Inr (), s1)"
    and "\<forall>t. fs s (CGroupManager_path nm) \<noteq> Some (Symlink t)"
  shows "fs s1 (CGroupManager_path nm) = Some Dir"
proof -
  let ?cg = "CGroupManager_path nm"
  from CGroupManager_create_ok [OF assms(1)] obtain a b where
    m: "Path_mkdir e False True ?cg (enter ''CGroupManager.create'' s) = (Inr (), a)"
    and w1: "write_text e (?cg @ [''memory.max'']) (str_int (mem * 1024 * 1024)) a = (Inr (), b)"
    and w2: "write_text e (?cg @ [''cpu.max'']) (str_int (cpu * 1000) @ '' 100000'') b = (Inr (), s1)"
    by blast
  from Path_mkdir_flat_ok [OF m] assms(2) have "\<forall>t. fs a ?cg \<noteq> Some (Symlink t)"
    by (auto simp: enter_def)
  with Path_mkdir_flat_dir [OF m] have "fs a ?cg = Some Dir" by (rule is_dir_entry)
  with write_text_keeps_dirs [OF w1] have "fs b ?cg = Some Dir" by simp
  with write_text_keeps_dirs [OF w2] show ?thesis by simp
qed

lemma cleanup_removes:
  assumes cg: "fs s cg = Some Dir" and root: "fs s root = Some Dir" and r: "rootfs s = Some root"
    and nm: "CGroupManager_path (name cfg) = cg"
    and f1: "fault e (Rmdir cg) = None" and f2: "fault e (Rmtree root) = None"
    and n1: "\<not> has_nul (Rmdir cg)" and n2: "\<not> has_nul (Rmtree root)" and u: "stdout_utf8 e"
  shows "fst (Container_cleanup e cfg s) = Inr ()"
    and "\<forall>q. prefix cg q \<or> prefix root q \<longrightarrow> fs (snd (Container_cleanup e cfg s)) q = None"
proof -
  let ?f1 = "\<lambda>q. if prefix cg q then None else fs s q"
  let ?s1 = "s\<lparr>fs := ?f1,
               trace := trace s @ [Enter ''CGroupManager.cleanup'', Sys (Rmdir cg) True]\<rparr>"
  have c1: "CGroupManager_cleanup e (name cfg) s = (Inr (), ?s1)"
    using cg f1 n1
    by (simp add: CGroupManager_cleanup_def nm Path_rmdir_def rmdir_eff_def syscall_clean enter_def
             del: has_nul_simps)
  have c: "Container_cleanup e cfg s = RootFSManager_cleanup e ?s1"
    by (simp add: Container_cleanup_utf8 [OF u] andThen_def c1)
  have "fst (RootFSManager_cleanup e ?s1) = Inr ()
        \<and> (\<forall>q. prefix cg q \<or> prefix root q \<longrightarrow> fs (snd (RootFSManager_cleanup e ?s1)) q = None)"
  proof (cases "prefix cg root")
    case True
    then have gone: "?f1 root = None" by simp
    then have "\<not> path_exists ?f1 root" using path_exists_entry [of ?f1 root] by blast
    then have "RootFSManager_cleanup e ?s1 = (Inr (), enter ''RootFSManager.cleanup'' ?s1)"
      using r by (simp add: RootFSManager_cleanup_def)
    moreover have "prefix cg q" if "prefix root q" for q
      using True that by (rule prefix_order.trans)
    ultimately show ?thesis by (auto simp: enter_def)
  next
    case False
    with root have d: "?f1 root = Some Dir" by simp
    from entry_is_dir(2) [of ?f1 root, OF d] have "path_exists (fs ?s1) root" by simp
    then show ?thesis
      using r d f2 n2
      by (simp add: RootFSManager_cleanup_def rmtree_def rmtree_eff_def syscall_clean enter_def
               del: has_nul_simps)
  qed
  with c show "fst (Container_cleanup e cfg s) = Inr ()"
    and "\<forall>q. prefix cg q \<or> prefix root q \<longrightarrow> fs (snd (Container_cleanup e cfg s)) q = None"
    by simp_all
qed

text \<open>
  Claim C6. The group did not exist as a symbolic link, \<^verbatim>\<open>CGroupManager.create\<close>
  completed, \<^verbatim>\<open>mkdtemp\<close> and the creation of the skeleton directories completed, and
  none of the three busybox search paths exists when \<^verbatim>\<open>_setup_busybox\<close> looks; the
  host does not refuse the removal of the group and of the temporary root. Then
  \<^verbatim>\<open>RootFSManager.create\<close> raises the \<^verbatim>\<open>RuntimeError\<close> for the missing busybox,
  \<^verbatim>\<open>Container.run\<close> returns 1, and afterwards nothing is left at or below the group's
  path and the temporary root.
\<close>

theorem missing_busybox_fails_cleanly:
  assumes "\<forall>t. fs s (CGroupManager_path (name cfg)) \<noteq> Some (Symlink t)"
    and "CGroupManager_create e (name cfg) (memory_mb cfg) (cpu_percent cfg) s = (Inr (), s1)"
    and "mkdtemp e (''container_'' @ name cfg @ ''_'') (enter ''RootFSManager.create'' s1) = (Inr t, s2)"
    and "for_each (\<lambda>d. Path_mkdir e True True (joinpath (Path t) d)) skeleton_dirs
           (s2\<lparr>rootfs := Some (Path t)\<rparr>) = (Inr (), s3)"
    and "\<forall>p\<in>set busybox_paths. \<not> os_path_exists s3 p"
    and "fault e (Rmdir (CGroupManager_path (name cfg))) = None"
    and "fault e (Rmtree (Path t)) = None"
  shows "RootFSManager_create e (name cfg) s1 = (Inl busybox_missing, s3)
       \<and> fst (Container_run e cfg s) = Inr 1
       \<and> (\<forall>q. prefix (CGroupManager_path (name cfg)) q \<or> prefix (Path t) q
              \<longrightarrow> fs (snd (Container_run e cfg s)) q = None)"
proof -
  let ?cg = "CGroupManager_path (name cfg)"
  let ?body = "\<lambda>d. Path_mkdir e True True (joinpath (Path t) d)"
  have none: "find (os_path_exists s3) busybox_paths = None"
    using assms(5) by (simp add: find_None_iff)
  have create: "RootFSManager_create e (name cfg) s1 = (Inl busybox_missing, s3)"
    using assms(3) assms(4) none
    by (simp add: RootFSManager_create_def andThen_def RootFSManager_setup_busybox_def)
  have tb: "Container_try e cfg s = (Inl busybox_missing, s3)"
    using assms(2) create by (simp add: Container_try_def andThen_def)
  \<comment> \<open>the group directory and the temporary root are still there when the cleanup starts\<close>
  have g1: "fs s1 ?cg = Some Dir"
    by (rule group_is_dir_after_create [OF assms(2) assms(1)])
  from mkdtemp_names_ok [of e "''container_'' @ name cfg @ ''_''" "tmp_names e"
         "enter ''RootFSManager.create'' s1" t s2] assms(3)
  have t2: "fs s2 (Path t) = Some Dir" and k2: "\<forall>x. fs s1 x \<noteq> None \<longrightarrow> fs s2 x = fs s1 x"
    by (auto simp: mkdtemp_def enter_def)
  have "(\<forall>q. fs (s2\<lparr>rootfs := Some (Path t)\<rparr>) q \<noteq> None \<longrightarrow>
            fs (snd (for_each ?body skeleton_dirs (s2\<lparr>rootfs := Some (Path t)\<rparr>))) q
              = fs (s2\<lparr>rootfs := Some (Path t)\<rparr>) q)
        \<and> rootfs (snd (for_each ?body skeleton_dirs (s2\<lparr>rootfs := Some (Path t)\<rparr>)))
            = rootfs (s2\<lparr>rootfs := Some (Path t)\<rparr>)"
    by (rule for_each_keeps) (rule Path_mkdir_keeps)
  with assms(4) have k3: "\<forall>q. fs s2 q \<noteq> None \<longrightarrow> fs s3 q = fs s2 q"
    and r3: "rootfs s3 = Some (Path t)" by simp_all
  have g3: "fs s3 ?cg = Some Dir" using g1 k2 k3 by simp
  have t3: "fs s3 (Path t) = Some Dir" using t2 k3 by simp
  \<comment> \<open>the calls that completed show that standard output takes the program's lines and
      that neither path has a null byte\<close>
  note u = CGroupManager_create_stdout [OF assms(2)]
  from CGroupManager_create_ok [OF assms(2)] obtain a where
    "Path_mkdir e False True ?cg (enter ''CGroupManager.create'' s) = (Inr (), a)" by blast
  from Path_mkdir_flat_text [OF this] have n1: "\<not> has_nul (Rmdir ?cg)" by simp
  from mkdtemp_names_text [of e "''container_'' @ name cfg @ ''_''" "tmp_names e"
         "enter ''RootFSManager.create'' s1" t s2] assms(3)
  have n2: "\<not> has_nul (Rmtree (Path t))" by (simp add: mkdtemp_def)
  note cl = cleanup_removes [OF g3 t3 r3 refl assms(6) assms(7) n1 n2 u]
  have "fst (Container_cleanup e cfg (snd (Container_try e cfg s))) = Inr ()"
    using cl(1) by (simp add: tb)
  from Container_run_result [OF this]
  have result: "fst (Container_run e cfg s) = Inr 1"
    by (simp add: tb exit_code_def is_Exception_def busybox_missing_def)
  have "snd (Container_run e cfg s) = snd (Container_cleanup e cfg s3)"
    by (simp add: Container_run_utf8 [OF u] tb split: prod.splits sum.splits)
  with cl(2) create result show ?thesis by simp
qed

theorem missing_busybox_fails_cleanly_witness:
  "RootFSManager_create host_env ''demo'' bare_group = (Inl busybox_missing, bare_skeleton)
   \<and> fst (Container_run host_env demo_config bare_state) = Inr 1
   \<and> fs (snd (Container_run host_env demo_config bare_state)) [''sys'', ''fs'', ''cgroup'', ''demo''] = None
   \<and> fs (snd (Container_run host_env demo_config bare_state))
        [''sys'', ''fs'', ''cgroup'', ''demo'', ''memory.max''] = None
   \<and> fs (snd (Container_run host_env demo_config bare_state)) [''tmp'', ''container_demo_k3x9_q0a''] = None
   \<and> fs (snd (Container_run host_env demo_config bare_state))
        [''tmp'', ''container_demo_k3x9_q0a'', ''bin''] = None"
proof -
  have cg: "CGroupManager_path (name demo_config) = [''sys'', ''fs'', ''cgroup'', ''demo'']"
    by (simp add: CGroupManager_path_def Path_def demo_config_def)
  have rt: "Path ''/tmp/container_demo_k3x9_q0a'' = [''tmp'', ''container_demo_k3x9_q0a'']"
    by (simp add: Path_def)
  have a1: "\<forall>t. fs bare_state (CGroupManager_path (name demo_config)) \<noteq> Some (Symlink t)"
    by (simp add: cg bare_state_def bare_fs_def)
  have a2: "CGroupManager_create host_env (name demo_config) (memory_mb demo_config)
              (cpu_percent demo_config) bare_state = (Inr (), bare_group)"
    by (simp add: demo_config_def bare_create_group)
  have a3: "mkdtemp host_env (''container_'' @ name demo_config @ ''_'')
              (enter ''RootFSManager.create'' bare_group) = (Inr ''/tmp/container_demo_k3x9_q0a'', bare_tmp)"
    using bare_mkdtemp by (simp add: demo_config_def)
  have a6: "fault host_env (Rmdir (CGroupManager_path (name demo_config))) = None"
    and a7: "fault host_env (Rmtree (Path ''/tmp/container_demo_k3x9_q0a'')) = None"
    by (simp_all add: host_env_def)
  note t = missing_busybox_fails_cleanly [OF a1 a2 a3 bare_mkdirs bare_no_busybox a6 a7]
  from t have every: "\<forall>q. prefix [''sys'', ''fs'', ''cgroup'', ''demo''] q
              \<or> prefix [''tmp'', ''container_demo_k3x9_q0a''] q
              \<longrightarrow> fs (snd (Container_run host_env demo_config bare_state)) q = None"
    unfolding cg rt by blast
  have n: "name demo_config = ''demo''" by (simp add: demo_config_def)
  from t every show ?thesis unfolding n by simp
qed

end
